theory Spec2Isabelle
  imports Main "HOL-Library.Word" "HOL-Library.Multiset"
begin

section \<open>Name mapping (pkg/sync)\<close>

text \<open>
  \<^verbatim>\<open>PackageSync\<close> holds the two API clients and the name mapping table. Only the table is
  state that the functions below read or write, so the record keeps that field.
  \<^verbatim>\<open>NewPackageSync\<close> starts with \<^verbatim>\<open>make(map[string]string)\<close>, the empty table.
\<close>

record PackageSync =
  mappings :: "string \<rightharpoonup> string"

definition NewPackageSync :: PackageSync where
  "NewPackageSync = \<lparr>mappings = Map.empty\<rparr>"

text \<open>
  What \<^verbatim>\<open>os.Open\<close> followed by \<^verbatim>\<open>csv.NewReader(file).ReadAll()\<close> gives for a path: the open
  fails, the read fails, or the parsed records. An empty file parses to no record at all
  and no error.
\<close>

datatype file_read = OpenError string | ReadError string | Records "string list list"

text \<open>A Go call either returns or panics; the panic message is kept.\<close>

datatype 'a outcome = Panic string | Return 'a

text \<open>
  \<^verbatim>\<open>records[1:]\<close>: Go checks \<^verbatim>\<open>1 <= len(records)\<close> and panics otherwise.
\<close>

definition slice_from1 :: "'a list \<Rightarrow> 'a list outcome" where
  "slice_from1 xs =
     (if length xs < 1 then Panic ''runtime error: slice bounds out of range [1:0]''
      else Return (drop 1 xs))"

text \<open>
  The body of \<^verbatim>\<open>for _, record := range records[1:]\<close>: a record with at least two columns
  stores \<^verbatim>\<open>mappings[record[0]] = record[1]\<close>, any other record is passed over.
\<close>

fun load_rows :: "string list list \<Rightarrow> (string \<rightharpoonup> string) \<Rightarrow> (string \<rightharpoonup> string)" where
  "load_rows [] m = m"
| "load_rows (record # rest) m =
     load_rows rest (if 2 \<le> length record then m(record ! 0 \<mapsto> record ! 1) else m)"

text \<open>
  \<^verbatim>\<open>LoadMappings\<close> returns its error (\<open>None\<close> is \<^verbatim>\<open>nil\<close>) and the updated receiver. The
  file system is the function \<open>fs\<close> from paths to what reading them gives.
\<close>

definition LoadMappings ::
  "(string \<Rightarrow> file_read) \<Rightarrow> string \<Rightarrow> PackageSync \<Rightarrow> (string option \<times> PackageSync) outcome" where
  "LoadMappings fs mappingFile s =
     (if mappingFile = [] then Return (None, s)
      else case fs mappingFile of
        OpenError err \<Rightarrow> Return (Some (''failed to open mapping file: '' @ err), s)
      | ReadError err \<Rightarrow> Return (Some (''failed to read mapping file: '' @ err), s)
      | Records records \<Rightarrow>
          (case slice_from1 records of
             Panic p \<Rightarrow> Panic p
           | Return rows \<Rightarrow> Return (None, s\<lparr>mappings := load_rows rows (mappings s)\<rparr>)))"

definition getTargetPackageName :: "PackageSync \<Rightarrow> string \<Rightarrow> string" where
  "getTargetPackageName s sourceName =
     (case mappings s sourceName of
        Some targetName \<Rightarrow> targetName
      | None \<Rightarrow> sourceName)"

section \<open>Package validation (pkg/package)\<close>

text \<open>
  The domain model. \<^verbatim>\<open>pkg.Version\<close> also has a free-form \<^verbatim>\<open>Metadata\<close> map that no function
  modelled here reads; it is left out. Package \<^verbatim>\<open>api\<close> declares \<^verbatim>\<open>Package\<close>, \<^verbatim>\<open>Version\<close> and
  \<^verbatim>\<open>File\<close> again with a subset of these fields, and the source passes the one for the other;
  the records below stand for both. The two pointer fields are options, \<open>None\<close> for \<^verbatim>\<open>nil\<close>.
\<close>

record File =
  FileName :: string
  FileSize :: int
  FileSHA256 :: string
  FileURL :: string

record Version =
  VersionID :: string
  VersionName :: string
  Files :: "File list"
  CreatedAt :: string
  UpdatedAt :: string

record Owner =
  OwnerLogin :: string
  OwnerType :: string

record Repository =
  RepoName :: string
  RepoFullName :: string
  RepoURL :: string

record Statistics =
  DownloadsCount :: int

record Package =
  PkgID :: string
  PkgName :: string
  PkgType :: string
  Visibility :: string
  Owner :: Owner
  Versions :: "Version list"
  Repository :: "Repository option"
  Statistics :: "Statistics option"

text \<open>
  Go's \<^verbatim>\<open>error\<close> values of this package: a \<^verbatim>\<open>*ValidationError\<close> with its three fields, or
  the plain error of \<^verbatim>\<open>fmt.Errorf\<close>. \<open>Error\<close> is the method \<^verbatim>\<open>Error()\<close>.
\<close>

datatype error =
  ValidationError (VE_PackageName: string) (VE_PackageType: string) (VE_Message: string)
| Errorf string

fun Error :: "error \<Rightarrow> string" where
  "Error (ValidationError pname ptype msg) =
     ''validation error for '' @ ptype @ '' package ''
       @ [CHR 0x27] @ pname @ [CHR 0x27] @ '': '' @ msg"
| "Error (Errorf msg) = msg"

subsection \<open>The string functions the rules use\<close>

definition HasPrefix :: "string \<Rightarrow> string \<Rightarrow> bool" where
  "HasPrefix s p = (take (length p) s = p)"

definition HasSuffix :: "string \<Rightarrow> string \<Rightarrow> bool" where
  "HasSuffix s p = (length p \<le> length s \<and> drop (length s - length p) s = p)"

text \<open>\<^verbatim>\<open>strings.Contains(s, ":")\<close> with a one-byte separator.\<close>

definition Contains :: "string \<Rightarrow> char \<Rightarrow> bool" where
  "Contains s c = list_ex (\<lambda>x. x = c) s"

definition ContainsAny :: "string \<Rightarrow> string \<Rightarrow> bool" where
  "ContainsAny s chars = list_ex (\<lambda>x. List.member chars x) s"

text \<open>
  \<^verbatim>\<open>strings.Split(s, ":")\<close>: one more part than there are separators, the empty string
  giving the one empty part.
\<close>

fun Split :: "string \<Rightarrow> char \<Rightarrow> string list" where
  "Split [] c = [[]]"
| "Split (x # xs) c =
     (if x = c then [] # Split xs c
      else (case Split xs c of p # ps \<Rightarrow> (x # p) # ps | [] \<Rightarrow> [[x]]))"

text \<open>
  \<^verbatim>\<open>strings.ToLower\<close> on the bytes of an ASCII name: the letters A to Z move to a to z,
  every other byte stays. (Go also lowers letters beyond ASCII; names are read as ASCII
  here.)
\<close>

definition lower_char :: "char \<Rightarrow> char" where
  "lower_char c =
     (if (65::nat) \<le> of_char c \<and> of_char c \<le> (90::nat)
      then char_of (of_char c + (32::nat)) else c)"

definition ToLower :: "string \<Rightarrow> string" where
  "ToLower s = map lower_char s"

subsection \<open>The validators\<close>

definition PackageTypeContainer :: string where "PackageTypeContainer = ''container''"
definition PackageTypeNpm :: string where "PackageTypeNpm = ''npm''"
definition PackageTypeMaven :: string where "PackageTypeMaven = ''maven''"
definition PackageTypeNuGet :: string where "PackageTypeNuGet = ''nuget''"
definition PackageTypeRubyGems :: string where "PackageTypeRubyGems = ''rubygems''"

datatype PackageValidator =
  ContainerValidator | NpmValidator | MavenValidator | NuGetValidator | RubyGemsValidator

text \<open>The characters of \<^verbatim>\<open>"!@#$%^&*()+=[]{}|\\:;\"'<>?,/"\<close>, the NuGet rule's set.\<close>

definition nuget_chars :: string where
  "nuget_chars = ''!@#$%^&*()+=[]{}|'' @ [CHR 0x5C] @ '':;'' @ [CHR 0x22, CHR 0x27] @ ''<>?,/''"

text \<open>
  The method \<^verbatim>\<open>ValidatePackage\<close> of each validator, the package-level rule of its type;
  \<open>None\<close> is \<^verbatim>\<open>nil\<close>.
\<close>

fun validator_ValidatePackage :: "PackageValidator \<Rightarrow> Package \<Rightarrow> error option" where
  "validator_ValidatePackage ContainerValidator pkg =
     (if Contains (PkgName pkg) (CHR '':'')
      then Some (ValidationError (PkgName pkg) PackageTypeContainer
                  (''container name cannot contain '' @ [CHR 0x27] @ '':'' @ [CHR 0x27]
                     @ '' character''))
      else None)"
| "validator_ValidatePackage NpmValidator pkg =
     (if \<not> HasPrefix (PkgName pkg) ''@''
      then Some (ValidationError (PkgName pkg) PackageTypeNpm
                  (''npm package name must start with '' @ [CHR 0x27] @ ''@'' @ [CHR 0x27]
                     @ '' for scoped packages''))
      else None)"
| "validator_ValidatePackage MavenValidator pkg =
     (if length (Split (PkgName pkg) (CHR '':'')) \<noteq> 2
      then Some (ValidationError (PkgName pkg) PackageTypeMaven
                  (''maven package name must be in format '' @ [CHR 0x27]
                     @ ''groupId:artifactId'' @ [CHR 0x27]))
      else None)"
| "validator_ValidatePackage NuGetValidator pkg =
     (if ContainsAny (PkgName pkg) nuget_chars
      then Some (ValidationError (PkgName pkg) PackageTypeNuGet
                  ''invalid package name: must follow .NET namespace conventions'')
      else None)"
| "validator_ValidatePackage RubyGemsValidator pkg =
     (if ContainsAny (PkgName pkg) ('' '' @ nuget_chars)
      then Some (ValidationError (PkgName pkg) PackageTypeRubyGems
                  ''invalid package name: can only contain alphanumeric characters, dashes, and underscores'')
      else if ToLower (PkgName pkg) \<noteq> PkgName pkg
      then Some (ValidationError (PkgName pkg) PackageTypeRubyGems
                  ''package name must be lowercase'')
      else None)"

text \<open>
  The method \<^verbatim>\<open>ValidateVersion\<close> of each validator, the version-level rule. Its errors
  leave \<^verbatim>\<open>PackageName\<close> empty. The loops that set a flag and break are \<open>list_ex\<close>; the
  container loop returns at the first file over the limit, which \<open>find\<close> picks.
\<close>

fun validator_ValidateVersion :: "PackageValidator \<Rightarrow> Version \<Rightarrow> error option" where
  "validator_ValidateVersion ContainerValidator ver =
     (case find (\<lambda>file. FileSize file > 10 * 1024 * 1024 * 1024) (Files ver) of
        Some file \<Rightarrow> Some (ValidationError [] PackageTypeContainer
                            (''file '' @ FileName file @ '' exceeds 10GB layer limit''))
      | None \<Rightarrow> None)"
| "validator_ValidateVersion NpmValidator ver =
     (if \<not> list_ex (\<lambda>file. FileName file = ''package.json'') (Files ver)
      then Some (ValidationError [] PackageTypeNpm ''missing required package.json file'')
      else None)"
| "validator_ValidateVersion MavenValidator ver =
     (if \<not> list_ex (\<lambda>file. FileName file = ''pom.xml'') (Files ver)
      then Some (ValidationError [] PackageTypeMaven ''missing required pom.xml file'')
      else None)"
| "validator_ValidateVersion NuGetValidator ver =
     (if \<not> list_ex (\<lambda>file. HasSuffix (FileName file) ''.nupkg'') (Files ver)
      then Some (ValidationError [] PackageTypeNuGet ''missing required .nupkg file'')
      else if \<not> list_ex (\<lambda>file. HasSuffix (FileName file) ''.nuspec'') (Files ver)
      then Some (ValidationError [] PackageTypeNuGet ''missing required .nuspec file'')
      else None)"
| "validator_ValidateVersion RubyGemsValidator ver =
     (if \<not> list_ex (\<lambda>file. HasSuffix (FileName file) ''.gem'') (Files ver)
      then Some (ValidationError [] PackageTypeRubyGems ''missing required .gem file'')
      else if \<not> list_ex (\<lambda>file. HasSuffix (FileName file) ''.gemspec'') (Files ver)
      then Some (ValidationError [] PackageTypeRubyGems ''missing required .gemspec file'')
      else if list_ex (\<lambda>file. HasSuffix (FileName file) ''metadata.gz''
                                \<and> FileSize file > 2 * 1024 * 1024) (Files ver)
      then Some (ValidationError [] PackageTypeRubyGems
                  ''metadata.gz file must be less than 2MB'')
      else None)"

definition GetValidator :: "string \<Rightarrow> error + PackageValidator" where
  "GetValidator pkgType =
     (if pkgType = PackageTypeContainer then Inr ContainerValidator
      else if pkgType = PackageTypeNpm then Inr NpmValidator
      else if pkgType = PackageTypeMaven then Inr MavenValidator
      else if pkgType = PackageTypeNuGet then Inr NuGetValidator
      else if pkgType = PackageTypeRubyGems then Inr RubyGemsValidator
      else Inl (Errorf (''unsupported package type: '' @ pkgType)))"

text \<open>
  The loop \<^verbatim>\<open>for _, version := range pkg.Versions\<close> of the helper: the first version whose
  rule fails ends it with that error.
\<close>

fun validate_versions :: "PackageValidator \<Rightarrow> Version list \<Rightarrow> error option" where
  "validate_versions validator [] = None"
| "validate_versions validator (version # rest) =
     (case validator_ValidateVersion validator version of
        Some err \<Rightarrow> Some err
      | None \<Rightarrow> validate_versions validator rest)"

text \<open>The helper \<^verbatim>\<open>ValidatePackage(pkg *Package) error\<close>.\<close>

definition ValidatePackage :: "Package \<Rightarrow> error option" where
  "ValidatePackage pkg =
     (case GetValidator (PkgType pkg) of
        Inl err \<Rightarrow> Some err
      | Inr validator \<Rightarrow>
          (case validator_ValidatePackage validator pkg of
             Some err \<Rightarrow> Some err
           | None \<Rightarrow> validate_versions validator (Versions pkg)))"

section \<open>Goroutines behind a semaphore\<close>

text \<open>
  Both fan-outs with a semaphore have the same shape: the main goroutine walks a list,
  takes a slot of a buffered channel of capacity \<open>limit\<close> before it starts the goroutine of
  the next item, and each goroutine gives its slot back when it ends. The goroutines of
  one fan-out are taken to run to completion one at a time; the order in which they end
  is what the scheduler decides. A schedule is a list of numbers, one per step (0 when
  the list runs out): 0 lets the main goroutine go on if it can, \<open>c > 0\<close> ends the
  goroutine at position \<open>c - 1\<close> (modulo their number) among those in flight.
  \<open>completion_order\<close> is the resulting order of completion.
\<close>

definition sched_head :: "nat list \<Rightarrow> nat" where
  "sched_head sched = (case sched of [] \<Rightarrow> 0 | c # _ \<Rightarrow> c)"

definition remove_nth :: "nat \<Rightarrow> 'a list \<Rightarrow> 'a list" where
  "remove_nth k xs = take k xs @ drop (Suc k) xs"

lemma length_remove_nth: "k < length xs \<Longrightarrow> length (remove_nth k xs) < length xs"
  by (simp add: remove_nth_def)

definition spawns_next :: "nat \<Rightarrow> 'a list \<Rightarrow> 'a list \<Rightarrow> nat list \<Rightarrow> bool" where
  "spawns_next limit todo inflight sched =
     (todo \<noteq> [] \<and> length inflight < limit \<and> (inflight = [] \<or> sched_head sched = 0))"

function completion_order :: "nat \<Rightarrow> 'a list \<Rightarrow> 'a list \<Rightarrow> nat list \<Rightarrow> 'a list" where
  "completion_order limit todo inflight sched =
     (if spawns_next limit todo inflight sched
      then completion_order limit (tl todo) (inflight @ [hd todo]) (tl sched)
      else if inflight \<noteq> []
      then (let k = (sched_head sched - 1) mod length inflight
            in inflight ! k # completion_order limit todo (remove_nth k inflight) (tl sched))
      else [])"
  by pat_completeness auto
termination
  by (relation "measure (\<lambda>(limit, todo, inflight, _). 2 * length todo + length inflight)")
     (auto intro!: length_remove_nth simp: neq_Nil_conv spawns_next_def)

declare completion_order.simps [simp del]

section \<open>The concurrent migration path (pkg/sync)\<close>

record ValidationReport =
  PackageName :: string
  PackageType :: string
  Status :: string
  ErrorMessage :: string
  VersionsCount :: int
  TotalSize :: int

type_synonym bytes = string

text \<open>
  What \<^verbatim>\<open>processConcurrently\<close> uses and the source does not declare is a parameter: the
  constants \<^verbatim>\<open>maxRetries\<close> and \<^verbatim>\<open>retryDelay\<close> of package \<^verbatim>\<open>sync\<close> (a \<^verbatim>\<open>time.Duration\<close>, in
  nanoseconds), the two organization names read from the configuration, and the two
  remote calls. \<^verbatim>\<open>DownloadPackageVersion\<close> gets the number of the call for that version as
  an extra argument, so that the remote side may answer each attempt differently; it
  returns data and error as the Go call does.
\<close>

record sync_env =
  sync_maxRetries :: int
  sync_retryDelay :: int
  SOURCE_ORGANIZATION :: string
  TARGET_ORGANIZATION :: string
  DownloadPackageVersion :: "string \<Rightarrow> string \<Rightarrow> string \<Rightarrow> nat \<Rightarrow> bytes \<times> string option"
  UploadPackageVersion :: "string \<Rightarrow> string \<Rightarrow> string \<Rightarrow> bytes \<Rightarrow> string option"

text \<open>
  What a worker does that others can see: a download attempt, a sleep, an upload, the
  end of a version's goroutine (\<^verbatim>\<open>versionWg.Done()\<close>), a report sent on \<^verbatim>\<open>results\<close>.
\<close>

datatype wevent =
  EvDownload string string
| EvSleep int
| EvUpload string string
| EvVersionDone nat
| EvSend ValidationReport

text \<open>The product of two \<^verbatim>\<open>time.Duration\<close> values: an \<^verbatim>\<open>int64\<close> product, which wraps.\<close>

definition duration_mul :: "int \<Rightarrow> int \<Rightarrow> int" where
  "duration_mul a b = sint (word_of_int (a * b) :: 64 word)"

text \<open>
  The download loop of a version's goroutine,
  \<^verbatim>\<open>for retries := 0; retries < maxRetries; retries++\<close>, with \<^verbatim>\<open>data\<close> and \<^verbatim>\<open>err\<close> declared before
  it. It returns both and the events.
\<close>

function download_loop ::
  "sync_env \<Rightarrow> string \<Rightarrow> string \<Rightarrow> int \<Rightarrow> bytes \<Rightarrow> string option \<Rightarrow> wevent list
     \<Rightarrow> bytes \<times> string option \<times> wevent list" where
  "download_loop env pkgName vName retries data err tr =
     (if retries < sync_maxRetries env then
        (let r = DownloadPackageVersion env (SOURCE_ORGANIZATION env) pkgName vName (nat retries)
         in if snd r = None then (fst r, None, tr @ [EvDownload pkgName vName])
            else download_loop env pkgName vName (retries + 1) (fst r) (snd r)
                   (tr @ [EvDownload pkgName vName,
                          EvSleep (duration_mul (sync_retryDelay env) (retries + 1))]))
      else (data, err, tr))"
  by pat_completeness auto
termination
  by (relation "measure (\<lambda>(env, p, v, retries, _). nat (sync_maxRetries env - retries))") auto

declare download_loop.simps [simp del]

text \<open>
  The goroutine of one version: its events and the error it puts on \<^verbatim>\<open>versionErrors\<close>,
  if any.
\<close>

definition version_task ::
  "sync_env \<Rightarrow> Package \<Rightarrow> string \<Rightarrow> Version \<Rightarrow> wevent list \<times> string option" where
  "version_task env pkg targetName v =
     (case download_loop env (PkgName pkg) (VersionName v) 0 [] None [] of
        (data, err, tr) \<Rightarrow>
          (case err of
             Some e \<Rightarrow> (tr, Some (''failed to download version '' @ VersionName v @ '': '' @ e))
           | None \<Rightarrow>
               (case UploadPackageVersion env (TARGET_ORGANIZATION env) targetName
                       (VersionName v) data of
                  Some e \<Rightarrow> (tr @ [EvUpload targetName (VersionName v)],
                             Some (''failed to upload version '' @ VersionName v @ '': '' @ e))
                | None \<Rightarrow> (tr @ [EvUpload targetName (VersionName v)], None))))"

text \<open>
  The version goroutines of a package are started all at once, without a semaphore;
  \<open>pending\<close> are those still running, with their index. At each step the schedule picks
  the one that ends next; its error, if any, joins \<^verbatim>\<open>versionErrors\<close> (a channel with room
  for one error per version). The loop ends when none is pending: that is
  \<^verbatim>\<open>versionWg.Wait()\<close>.
\<close>

function run_versions ::
  "sync_env \<Rightarrow> Package \<Rightarrow> string \<Rightarrow> (nat \<times> Version) list \<Rightarrow> nat list \<Rightarrow> string list
     \<Rightarrow> wevent list \<Rightarrow> string list \<times> wevent list" where
  "run_versions env pkg targetName pending sched versionErrors tr =
     (if pending = [] then (versionErrors, tr)
      else
        (let k = sched_head sched mod length pending;
             ended = version_task env pkg targetName (snd (pending ! k))
         in run_versions env pkg targetName (remove_nth k pending) (tl sched)
              (case snd ended of None \<Rightarrow> versionErrors | Some e \<Rightarrow> versionErrors @ [e])
              (tr @ fst ended @ [EvVersionDone (fst (pending ! k))])))"
  by pat_completeness auto
termination
  by (relation "measure (\<lambda>(env, pkg, t, pending, _). length pending)")
     (auto intro!: length_remove_nth)

declare run_versions.simps [simp del]

text \<open>\<^verbatim>\<open>strings.Join\<close>.\<close>

fun Join :: "string list \<Rightarrow> string \<Rightarrow> string" where
  "Join [] sep = []"
| "Join [x] sep = x"
| "Join (x # y # ys) sep = x @ sep @ Join (y # ys) sep"

text \<open>
  The goroutine of one package in \<^verbatim>\<open>processConcurrently\<close>, from the report it prepares to
  the report it sends; \<open>sched\<close> schedules its version goroutines.
\<close>

definition worker :: "sync_env \<Rightarrow> PackageSync \<Rightarrow> nat list \<Rightarrow> Package \<Rightarrow> wevent list" where
  "worker env s sched pkg =
     (let report = \<lparr>PackageName = PkgName pkg, PackageType = PkgType pkg, Status = [],
                    ErrorMessage = [], VersionsCount = int (length (Versions pkg)),
                    TotalSize = 0\<rparr>
      in case ValidatePackage pkg of
           Some err \<Rightarrow> [EvSend (report\<lparr>Status := ''Failed'', ErrorMessage := Error err\<rparr>)]
         | None \<Rightarrow>
             (let targetName = getTargetPackageName s (PkgName pkg);
                  res = run_versions env pkg targetName
                          (zip [0..<length (Versions pkg)] (Versions pkg)) sched [] [];
                  errMsgs = fst res
              in snd res @
                 [EvSend (if length errMsgs > 0
                          then report\<lparr>Status := ''Partial Success'',
                                      ErrorMessage := Join errMsgs ''; ''\<rparr>
                          else report\<lparr>Status := ''Success''\<rparr>)]))"

definition maxConcurrent :: nat where
  "maxConcurrent = 5"

text \<open>
  \<^verbatim>\<open>processConcurrently\<close>: the workers end in an order the semaphore of five allows, and
  the events of each are tagged with the index of its package. \<open>vsched i\<close> schedules the
  version goroutines of package \<open>i\<close>.
\<close>

definition processConcurrently ::
  "sync_env \<Rightarrow> PackageSync \<Rightarrow> nat list \<Rightarrow> (nat \<Rightarrow> nat list) \<Rightarrow> Package list
     \<Rightarrow> (nat \<times> wevent) list" where
  "processConcurrently env s sched vsched packages =
     concat (map (\<lambda>(i, pkg). map (Pair i) (worker env s (vsched i) pkg))
               (completion_order maxConcurrent (zip [0..<length packages] packages) [] sched))"

text \<open>The reports among some events, and the events of package \<open>i\<close> in a run.\<close>

fun reports :: "wevent list \<Rightarrow> ValidationReport list" where
  "reports [] = []"
| "reports (EvSend r # es) = r # reports es"
| "reports (e # es) = reports es"

definition own_events :: "nat \<Rightarrow> (nat \<times> wevent) list \<Rightarrow> wevent list" where
  "own_events i results = map snd (filter (\<lambda>e. fst e = i) results)"

definition version_failed :: "sync_env \<Rightarrow> Package \<Rightarrow> string \<Rightarrow> Version \<Rightarrow> bool" where
  "version_failed env pkg targetName v = (snd (version_task env pkg targetName v) \<noteq> None)"

definition failed_report :: "Package \<Rightarrow> error \<Rightarrow> ValidationReport" where
  "failed_report pkg err =
     \<lparr>PackageName = PkgName pkg, PackageType = PkgType pkg, Status = ''Failed'',
      ErrorMessage = Error err, VersionsCount = int (length (Versions pkg)), TotalSize = 0\<rparr>"

text \<open>
  The classification as the specification words it, from whether validation failed and
  which versions failed: Failed when validation failed or all versions failed, Partial
  Success when one succeeded and one failed, Success when none failed.
\<close>

definition spec_classification :: "bool \<Rightarrow> bool list \<Rightarrow> string" where
  "spec_classification validation_failed version_failures =
     (if validation_failed \<or> (version_failures \<noteq> [] \<and> list_all id version_failures)
      then ''Failed''
      else if list_ex id version_failures \<and> list_ex Not version_failures
      then ''Partial Success''
      else ''Success'')"

section \<open>Retrying uploads (pkg/api, UploadManager)\<close>

record UploadManager =
  maxRetries :: int
  retryDelay :: int
  concurrency :: int

definition Second :: int where
  "Second = 1000000000"

definition NewUploadManager :: UploadManager where
  "NewUploadManager = \<lparr>maxRetries = 3, retryDelay = 5 * Second, concurrency = 5\<rparr>"

text \<open>\<^verbatim>\<open>%d\<close> of an integer and \<^verbatim>\<open>%v\<close> of an error, which prints \<^verbatim>\<open><nil>\<close> for \<^verbatim>\<open>nil\<close>.\<close>

function digits :: "nat \<Rightarrow> string" where
  "digits n =
     (if n < 10 then [''0123456789'' ! n]
      else digits (n div 10) @ [''0123456789'' ! (n mod 10)])"
  by pat_completeness auto
termination
  by (relation "measure id") auto

declare digits.simps [simp del]

definition show_int :: "int \<Rightarrow> string" where
  "show_int i = (if i < 0 then ''-'' @ digits (nat (- i)) else digits (nat i))"

definition show_error :: "string option \<Rightarrow> string" where
  "show_error err = (case err of None \<Rightarrow> ''<nil>'' | Some e \<Rightarrow> e)"

datatype uevent = UpAttempt int | UpWait int

text \<open>
  \<^verbatim>\<open>retryableUpload\<close>. The operation \<open>fn\<close> acts on the world \<open>w\<close> and returns its error. After
  a failed attempt the loop waits in a \<^verbatim>\<open>select\<close> on the context and a timer; \<open>ctx k\<close> says
  how the wait after attempt \<open>k\<close> ends: \<open>Some e\<close> when the context is done first, with
  \<^verbatim>\<open>ctx.Err()\<close> = \<open>e\<close>, \<open>None\<close> when the timer fires.
\<close>

function retry_loop ::
  "UploadManager \<Rightarrow> (nat \<Rightarrow> string option) \<Rightarrow> ('w \<Rightarrow> string option \<times> 'w) \<Rightarrow> int \<Rightarrow> string option
     \<Rightarrow> uevent list \<Rightarrow> 'w \<Rightarrow> (string option \<times> uevent list) \<times> 'w" where
  "retry_loop m ctx fn attempt lastErr tr w =
     (if attempt < maxRetries m then
        (case fn w of
           (Some err, w') \<Rightarrow>
             (case ctx (nat attempt) of
                Some ctxErr \<Rightarrow> ((Some ctxErr, tr @ [UpAttempt attempt]), w')
              | None \<Rightarrow>
                  retry_loop m ctx fn (attempt + 1) (Some err)
                    (tr @ [UpAttempt attempt,
                           UpWait (duration_mul (retryDelay m) (attempt + 1))]) w')
         | (None, w') \<Rightarrow> ((None, tr @ [UpAttempt attempt]), w'))
      else ((Some (''upload failed after '' @ show_int (maxRetries m) @ '' attempts: ''
                     @ show_error lastErr), tr), w))"
  by pat_completeness auto
termination
  by (relation "measure (\<lambda>(m, ctx, fn, attempt, _). nat (maxRetries m - attempt))") auto

declare retry_loop.simps [simp del]

definition retryableUpload ::
  "UploadManager \<Rightarrow> (nat \<Rightarrow> string option) \<Rightarrow> ('w \<Rightarrow> string option \<times> 'w) \<Rightarrow> 'w
     \<Rightarrow> (string option \<times> uevent list) \<times> 'w" where
  "retryableUpload m ctx fn w = retry_loop m ctx fn 0 None [] w"

text \<open>The world in which the attempt number \<open>k\<close> (from 0) of \<open>fn\<close> runs.\<close>

definition nth_state :: "('w \<Rightarrow> string option \<times> 'w) \<Rightarrow> 'w \<Rightarrow> nat \<Rightarrow> 'w" where
  "nth_state fn w k = ((\<lambda>w. snd (fn w)) ^^ k) w"

section \<open>Catalog fetch (pkg/api)\<close>

text \<open>Instants are integers on the clock of the world below.\<close>

record RateLimit =
  Remaining :: int
  ResetAt :: int

text \<open>
  The nodes of \<^verbatim>\<open>PackageQuery\<close>. The identifiers are the strings that the type assertion
  \<^verbatim>\<open>node.ID.(string)\<close> expects, the two timestamps are what \<^verbatim>\<open>String()\<close> renders.
\<close>

record FileNode =
  fileName :: string
  fileSize :: int
  fileSHA256 :: string
  fileURL :: string

record VersionNode =
  verID :: string
  verVersion :: string
  verFiles :: "FileNode list"
  verMetadataPackageType :: string
  verCreatedAt :: string
  verUpdatedAt :: string

record PackageNode =
  nodeID :: string
  nodeName :: string
  nodePackageType :: string
  nodeRepositoryName :: string
  nodeRepositoryURL :: string
  nodeDownloadsTotalCount :: int
  nodeVersions :: "VersionNode list"

record PackageQuery =
  EndCursor :: string
  HasNextPage :: bool
  Nodes :: "PackageNode list"

record variables =
  login :: string
  first :: int
  after :: "string option"
  packageType :: string

datatype api_event =
  EvProbe "string + RateLimit"
| EvSleepUntil int
| EvPageQuery variables int

text \<open>
  The remote side and the clock: the answers it will give to the rate-limit probes and to
  the page queries, in order (\<open>Inl\<close> is a transport error), the time, and what has
  happened so far. A page query is logged with its variables and the time it is issued.
  When the answers run out the call does not return, which is \<open>None\<close>.
\<close>

record world =
  probes :: "(string + RateLimit) list"
  pages :: "(string + PackageQuery) list"
  now :: int
  events :: "api_event list"

text \<open>\<^verbatim>\<open>c.client.Query(ctx, q, variables)\<close>, the page query of the wrapped client.\<close>

definition client_Query ::
  "variables \<Rightarrow> world \<Rightarrow> ((string + PackageQuery) \<times> world) option" where
  "client_Query vars w =
     (case pages w of
        [] \<Rightarrow> None
      | r # rs \<Rightarrow> Some (r, w\<lparr>pages := rs, events := events w @ [EvPageQuery vars (now w)]\<rparr>))"

text \<open>
  \<^verbatim>\<open>time.Sleep(time.Until(t))\<close>: it returns at once when \<open>t\<close> is not in the future, and not
  before \<open>t\<close> otherwise.
\<close>

definition Sleep_Until :: "int \<Rightarrow> world \<Rightarrow> world" where
  "Sleep_Until t w = w\<lparr>now := max (now w) t, events := events w @ [EvSleepUntil t]\<rparr>"

text \<open>\<^verbatim>\<open>RateLimitAwareGraphQLClient.Query\<close>.\<close>

function Query :: "variables \<Rightarrow> world \<Rightarrow> ((string + PackageQuery) \<times> world) option" where
  "Query vars w =
     (case probes w of
        [] \<Rightarrow> None
      | r # rs \<Rightarrow>
          (let w1 = w\<lparr>probes := rs, events := events w @ [EvProbe r]\<rparr>
           in case r of
                Inl err \<Rightarrow> Some (Inl err, w1)
              | Inr rateLimit \<Rightarrow>
                  if Remaining rateLimit > 0 then client_Query vars w1
                  else Query vars (Sleep_Until (ResetAt rateLimit) w1)))"
  by pat_completeness auto
termination
  by (relation "measure (\<lambda>(vars, w). length (probes w))") (auto simp: Sleep_Until_def)

declare Query.simps [simp del]

text \<open>The three nested loops that turn the nodes of a page into packages.\<close>

definition node_File :: "FileNode \<Rightarrow> File" where
  "node_File file = \<lparr>FileName = fileName file, FileSize = fileSize file,
                      FileSHA256 = fileSHA256 file, FileURL = fileURL file\<rparr>"

definition node_Version :: "VersionNode \<Rightarrow> Version" where
  "node_Version ver = \<lparr>VersionID = verID ver, VersionName = verVersion ver,
                        Files = map node_File (verFiles ver),
                        CreatedAt = verCreatedAt ver, UpdatedAt = verUpdatedAt ver\<rparr>"

definition node_Package :: "PackageNode \<Rightarrow> Package" where
  "node_Package node =
     \<lparr>PkgID = nodeID node, PkgName = nodeName node, PkgType = nodePackageType node,
      Visibility = [], Owner = \<lparr>OwnerLogin = [], OwnerType = []\<rparr>,
      Versions = map node_Version (nodeVersions node),
      Repository = Some \<lparr>RepoName = nodeRepositoryName node, RepoFullName = [],
                          RepoURL = nodeRepositoryURL node\<rparr>,
      Statistics = Some \<lparr>DownloadsCount = nodeDownloadsTotalCount node\<rparr>\<rparr>"

text \<open>
  The loop of \<^verbatim>\<open>GetOrganizationPackages\<close>, for any client and any world. It is a
  \<^verbatim>\<open>for\<close> without a condition, left only by \<^verbatim>\<open>return\<close> or \<^verbatim>\<open>break\<close>: a remote side that always
  announces a next page keeps it running, and then the result is \<open>None\<close>.
\<close>

partial_function (option) fetch_pages ::
  "(variables \<Rightarrow> 'w \<Rightarrow> ((string + PackageQuery) \<times> 'w) option) \<Rightarrow> variables \<Rightarrow> Package list \<Rightarrow> 'w
     \<Rightarrow> ((string + Package list) \<times> 'w) option" where
  "fetch_pages client vars packages w =
     (case client vars w of
        None \<Rightarrow> None
      | Some (Inl err, w') \<Rightarrow> Some (Inl (''failed to query packages: '' @ err), w')
      | Some (Inr query, w') \<Rightarrow>
          (let packages' = packages @ map node_Package (Nodes query)
           in if \<not> HasNextPage query then Some (Inr packages', w')
              else fetch_pages client (vars\<lparr>after := Some (EndCursor query)\<rparr>) packages' w'))"

declare fetch_pages.simps [code]

definition GetOrganizationPackages ::
  "string \<Rightarrow> string \<Rightarrow> world \<Rightarrow> ((string + Package list) \<times> world) option" where
  "GetOrganizationPackages org ptype w =
     fetch_pages Query \<lparr>login = org, first = 100, after = None, packageType = ptype\<rparr> [] w"

text \<open>
  \<open>replay client vars w rs\<close> is the world after the client has given the answers \<open>rs\<close>, one
  per request, when each request carries the cursor of the page before it; it is \<open>None\<close>
  when the client answers otherwise. An error can only be the last answer.
\<close>

fun replay ::
  "(variables \<Rightarrow> 'w \<Rightarrow> ((string + PackageQuery) \<times> 'w) option) \<Rightarrow> variables \<Rightarrow> 'w
     \<Rightarrow> (string + PackageQuery) list \<Rightarrow> 'w option" where
  "replay client vars w [] = Some w"
| "replay client vars w (r # rs) =
     (case client vars w of
        None \<Rightarrow> None
      | Some (r', w') \<Rightarrow>
          if r' \<noteq> r then None
          else (case r of
                  Inl err \<Rightarrow> if rs = [] then Some w' else None
                | Inr query \<Rightarrow> replay client (vars\<lparr>after := Some (EndCursor query)\<rparr>) w' rs))"

section \<open>Container uploads (pkg/api, upload.go and the container file)\<close>

text \<open>
  \<^verbatim>\<open>UploadOptions\<close>. A value of its \<^verbatim>\<open>map[string]interface{}\<close> is a string or something
  else; the map is a list of pairs with distinct keys.
\<close>

datatype meta_value = MString string | MOther

record UploadOptions =
  optOrganization :: string
  optPackageName :: string
  optVersion :: string
  optPackageType :: string
  optMetadata :: "(string \<times> meta_value) list"
  optFiles :: "string list"
  optVisibility :: string

record ConfigObject =
  cfgMediaType :: string
  cfgSize :: int
  cfgDigest :: string

record LayerObject =
  layerMediaType :: string
  layerSize :: int
  layerDigest :: string

record ContainerManifest =
  SchemaVersion :: int
  MediaType :: string
  Config :: ConfigObject
  Layers :: "LayerObject list"
  Annotations :: "(string \<times> string) list option"

definition mediaTypeManifest :: string where
  "mediaTypeManifest = ''application/vnd.docker.distribution.manifest.v2+json''"

definition mediaTypeLayer :: string where
  "mediaTypeLayer = ''application/vnd.docker.image.rootfs.diff.tar.gzip''"

definition mediaTypeConfig :: string where
  "mediaTypeConfig = ''application/vnd.docker.container.image.v1+json''"

text \<open>
  HTTP requests and responses, as far as the code builds and reads them. The body of a
  request is empty, the content of a file, or bytes in memory; \<open>Location\<close> is the header
  of that name, empty when absent.
\<close>

datatype body = NoBody | FileBody string | BytesBody bytes

record request =
  reqMethod :: string
  reqURL :: string
  reqHeaders :: "(string \<times> string) list"
  reqBody :: body

record response =
  StatusCode :: int
  RespStatus :: string
  Location :: string

text \<open>
  What the upload code calls and this package does not define: the file system
  (\<^verbatim>\<open>os.Stat\<close> gives an error or the size, \<^verbatim>\<open>os.Open\<close> an error or not, \<^verbatim>\<open>io.Copy\<close> into the hash
  an error or the bytes that were hashed), SHA-256 in hexadecimal, the construction of a
  request (which can fail), the HTTP client acting on a remote state \<open>'w\<close>, the method
  \<^verbatim>\<open>a.post\<close> and the field \<^verbatim>\<open>a.token\<close>, which the source uses without declaring them, and the
  two calls of \<^verbatim>\<open>json.Marshal\<close>. Every function below returns the requests it has sent,
  in order, beside its result and the new remote state.
\<close>

record 'w upload_env =
  os_Stat :: "string \<Rightarrow> string + int"
  os_Open :: "string \<Rightarrow> string option"
  hash_Copy :: "string \<Rightarrow> string + bytes"
  sha256_hex :: "bytes \<Rightarrow> string"
  NewRequest :: "string \<Rightarrow> string \<Rightarrow> string option"
  Do :: "request \<Rightarrow> 'w \<Rightarrow> (string + response) \<times> 'w"
  post :: "string \<Rightarrow> 'w \<Rightarrow> (string + response) \<times> 'w"
  token :: string
  json_config :: "string list \<Rightarrow> meta_value option \<Rightarrow> string + bytes"
  json_manifest :: "ContainerManifest \<Rightarrow> string + bytes"

definition head_request :: "string \<Rightarrow> request" where
  "head_request url = \<lparr>reqMethod = ''HEAD'', reqURL = url, reqHeaders = [], reqBody = NoBody\<rparr>"

definition post_request :: "string \<Rightarrow> request" where
  "post_request url = \<lparr>reqMethod = ''POST'', reqURL = url, reqHeaders = [], reqBody = NoBody\<rparr>"

text \<open>\<^verbatim>\<open>checkExists\<close>: a \<^verbatim>\<open>HEAD\<close> request; the resource exists when the status is 200.\<close>

definition checkExists ::
  "'w upload_env \<Rightarrow> string \<Rightarrow> 'w \<Rightarrow> ((string + bool) \<times> request list) \<times> 'w" where
  "checkExists a url w =
     (case NewRequest a ''HEAD'' url of
        Some err \<Rightarrow> ((Inl err, []), w)
      | None \<Rightarrow>
          (case Do a (head_request url) w of
             (Inl err, w') \<Rightarrow> ((Inl err, [head_request url]), w')
           | (Inr resp, w') \<Rightarrow> ((Inr (StatusCode resp = 200), [head_request url]), w')))"

definition layer_put_request :: "'w upload_env \<Rightarrow> string \<Rightarrow> string \<Rightarrow> int \<Rightarrow> request" where
  "layer_put_request a uploadURL file sz =
     \<lparr>reqMethod = ''PUT'', reqURL = uploadURL,
      reqHeaders = [(''Content-Type'', mediaTypeLayer), (''Content-Length'', show_int sz),
                    (''Authorization'', ''Bearer '' @ token a)],
      reqBody = FileBody file\<rparr>"

text \<open>
  \<^verbatim>\<open>uploadContainerLayer\<close>, from the top: size, digest, existence probe, upload session,
  upload. \<open>Inl\<close> is the error, \<open>Inr\<close> the digest.
\<close>

definition uploadContainerLayer ::
  "'w upload_env \<Rightarrow> string \<Rightarrow> string \<Rightarrow> 'w \<Rightarrow> ((string + string) \<times> request list) \<times> 'w" where
  "uploadContainerLayer a baseURL file w =
     (case os_Stat a file of
        Inl err \<Rightarrow> ((Inl (''failed to stat file: '' @ err), []), w)
      | Inr sz \<Rightarrow>
     (case os_Open a file of
        Some err \<Rightarrow> ((Inl (''failed to open file: '' @ err), []), w)
      | None \<Rightarrow>
     (case hash_Copy a file of
        Inl err \<Rightarrow> ((Inl (''failed to calculate hash: '' @ err), []), w)
      | Inr content \<Rightarrow>
     (let digest = ''sha256:'' @ sha256_hex a content;
          checkURL = baseURL @ ''/blobs/'' @ digest
      in case checkExists a checkURL w of
           ((Inl err, reqs), w1) \<Rightarrow> ((Inl err, reqs), w1)
         | ((Inr exists, reqs), w1) \<Rightarrow>
     (if exists then ((Inr digest, reqs), w1)
      else
     (let uploadURL = baseURL @ ''/blobs/uploads/''
      in case post a uploadURL w1 of
           (Inl err, w2) \<Rightarrow>
             ((Inl (''failed to start upload: '' @ err), reqs @ [post_request uploadURL]), w2)
         | (Inr resp, w2) \<Rightarrow>
     (if StatusCode resp \<noteq> 202
      then ((Inl (''unexpected status starting upload: '' @ RespStatus resp),
             reqs @ [post_request uploadURL]), w2)
      else if Location resp = []
      then ((Inl ''no upload location received'', reqs @ [post_request uploadURL]), w2)
      else
     (let putURL = Location resp @ ''&digest='' @ digest
      in case NewRequest a ''PUT'' putURL of
           Some err \<Rightarrow> ((Inl err, reqs @ [post_request uploadURL]), w2)
         | None \<Rightarrow>
     (let req = layer_put_request a putURL file sz
      in case Do a req w2 of
           (Inl err, w3) \<Rightarrow>
             ((Inl (''failed to upload layer: '' @ err),
               reqs @ [post_request uploadURL, req]), w3)
         | (Inr resp', w3) \<Rightarrow>
             if StatusCode resp' \<noteq> 201
             then ((Inl (''layer upload failed with status: '' @ RespStatus resp'),
                    reqs @ [post_request uploadURL, req]), w3)
             else ((Inr digest, reqs @ [post_request uploadURL, req]), w3))))))))))"

text \<open>
  \<^verbatim>\<open>generateContainerManifest\<close>. The annotations are the entries of the metadata whose value
  is a string, present only when the metadata is not empty.
\<close>

definition annotations_of :: "(string \<times> meta_value) list \<Rightarrow> (string \<times> string) list" where
  "annotations_of metadata =
     concat (map (\<lambda>(k, v). case v of MString str \<Rightarrow> [(k, str)] | MOther \<Rightarrow> []) metadata)"

definition generateContainerManifest ::
  "'w upload_env \<Rightarrow> string list \<Rightarrow> UploadOptions \<Rightarrow> string + ContainerManifest" where
  "generateContainerManifest a layers opts =
     (case json_config a layers (map_of (optMetadata opts) ''created'') of
        Inl err \<Rightarrow> Inl (''failed to marshal config: '' @ err)
      | Inr configJson \<Rightarrow>
          Inr \<lparr>SchemaVersion = 2, MediaType = mediaTypeManifest,
               Config = \<lparr>cfgMediaType = mediaTypeConfig, cfgSize = int (length configJson),
                         cfgDigest = ''sha256:'' @ sha256_hex a configJson\<rparr>,
               Layers = map (\<lambda>digest. \<lparr>layerMediaType = mediaTypeLayer, layerSize = 0,
                                        layerDigest = digest\<rparr>) layers,
               Annotations = (if length (optMetadata opts) > 0
                              then Some (annotations_of (optMetadata opts)) else None)\<rparr>)"

definition manifest_put_request :: "'w upload_env \<Rightarrow> string \<Rightarrow> bytes \<Rightarrow> request" where
  "manifest_put_request a url data =
     \<lparr>reqMethod = ''PUT'', reqURL = url,
      reqHeaders = [(''Content-Type'', mediaTypeManifest),
                    (''Authorization'', ''Bearer '' @ token a)],
      reqBody = BytesBody data\<rparr>"

definition uploadContainerManifest ::
  "'w upload_env \<Rightarrow> string \<Rightarrow> ContainerManifest \<Rightarrow> 'w \<Rightarrow> (string option \<times> request list) \<times> 'w" where
  "uploadContainerManifest a url manifest w =
     (case json_manifest a manifest of
        Inl err \<Rightarrow> ((Some (''failed to marshal manifest: '' @ err), []), w)
      | Inr data \<Rightarrow>
          (case NewRequest a ''PUT'' url of
             Some err \<Rightarrow> ((Some err, []), w)
           | None \<Rightarrow>
               (let req = manifest_put_request a url data
                in case Do a req w of
                     (Inl err, w') \<Rightarrow> ((Some (''failed to upload manifest: '' @ err), [req]), w')
                   | (Inr resp, w') \<Rightarrow>
                       if StatusCode resp \<noteq> 201
                       then ((Some (''manifest upload failed with status: '' @ RespStatus resp),
                              [req]), w')
                       else ((None, [req]), w'))))"

definition validateContainerUpload :: "UploadOptions \<Rightarrow> string option" where
  "validateContainerUpload opts =
     (if optOrganization opts = [] then Some ''organization is required''
      else if optPackageName opts = [] then Some ''package name is required''
      else if optVersion opts = [] then Some ''version is required''
      else None)"

text \<open>\<^verbatim>\<open>filepath.Ext\<close>: from the last dot of the last path element, empty without one.\<close>

definition Ext :: "string \<Rightarrow> string" where
  "Ext path =
     (let tail = takeWhile (\<lambda>c. c \<noteq> CHR ''/'') (rev path)
      in if List.member tail (CHR ''.'')
         then CHR ''.'' # rev (takeWhile (\<lambda>c. c \<noteq> CHR ''.'') tail)
         else [])"

definition isContainerLayer :: "string \<Rightarrow> bool" where
  "isContainerLayer file = (Ext file = ''.tar'' \<or> Ext file = ''.gz'' \<or> Ext file = ''.tgz'')"

text \<open>
  The layer goroutines of \<^verbatim>\<open>ContainerUpload\<close>, in the order in which they end: each puts its
  digest on \<^verbatim>\<open>layerResults\<close> or its error on \<^verbatim>\<open>layerErrors\<close>. Each is taken to run without
  a sibling's requests in between.
\<close>

fun run_layers ::
  "'w upload_env \<Rightarrow> string \<Rightarrow> string list \<Rightarrow> string list \<Rightarrow> string list \<Rightarrow> request list \<Rightarrow> 'w
     \<Rightarrow> (string list \<times> string list \<times> request list) \<times> 'w" where
  "run_layers a baseURL [] layerResults layerErrors sent w = ((layerResults, layerErrors, sent), w)"
| "run_layers a baseURL (layerFile # rest) layerResults layerErrors sent w =
     (case uploadContainerLayer a baseURL layerFile w of
        ((Inl err, reqs), w') \<Rightarrow>
          run_layers a baseURL rest layerResults
            (layerErrors @ [''layer upload failed: '' @ err]) (sent @ reqs) w'
      | ((Inr digest, reqs), w') \<Rightarrow>
          run_layers a baseURL rest (layerResults @ [digest]) layerErrors (sent @ reqs) w')"

text \<open>
  \<^verbatim>\<open>ContainerUpload\<close> returns its error, panics when the semaphore is made with a negative
  capacity, or blocks for ever when the capacity is zero and there is a layer to upload.
  Beside that it gives the requests sent and the events of the retry loop around the
  manifest upload, whose world is the requests sent so far and the remote state.
\<close>

datatype 'a run = Returns 'a | Panics string | Blocks

definition manifest_attempt ::
  "'w upload_env \<Rightarrow> string \<Rightarrow> ContainerManifest \<Rightarrow> request list \<times> 'w
     \<Rightarrow> string option \<times> (request list \<times> 'w)" where
  "manifest_attempt a url manifest st =
     (case uploadContainerManifest a url manifest (snd st) of
        ((err, reqs), w') \<Rightarrow> (err, (fst st @ reqs, w')))"

definition ContainerUpload ::
  "UploadManager \<Rightarrow> 'w upload_env \<Rightarrow> (nat \<Rightarrow> string option) \<Rightarrow> nat list \<Rightarrow> UploadOptions \<Rightarrow> 'w
     \<Rightarrow> (string option run \<times> request list \<times> uevent list) \<times> 'w" where
  "ContainerUpload m a ctx sched opts w =
     (case validateContainerUpload opts of
        Some err \<Rightarrow> ((Returns (Some (''container validation failed: '' @ err)), [], []), w)
      | None \<Rightarrow>
     (let files = filter isContainerLayer (optFiles opts)
      in if concurrency m < 0 then ((Panics ''makechan: sz out of range'', [], []), w)
         else if concurrency m = 0 \<and> files \<noteq> [] then ((Blocks, [], []), w)
         else
     (let baseURL = optOrganization opts @ ''/'' @ optPackageName opts;
          order = completion_order (nat (concurrency m)) files [] sched
      in case run_layers a baseURL order [] [] [] w of
           ((layers, layerErrors, sent), w1) \<Rightarrow>
     (if length layerErrors > 0 then ((Returns (Some (hd layerErrors)), sent, []), w1)
      else
     (case generateContainerManifest a layers opts of
        Inl err \<Rightarrow> ((Returns (Some (''manifest generation failed: '' @ err)), sent, []), w1)
      | Inr manifest \<Rightarrow>
     (let manifestURL = optOrganization opts @ ''/'' @ optPackageName opts @ ''/manifests/''
                          @ optVersion opts
      in case retryableUpload m ctx (manifest_attempt a manifestURL manifest) (sent, w1) of
           ((err, tr), (sent2, w2)) \<Rightarrow> ((Returns err, sent2, tr), w2)))))))"

section \<open>A registry that keeps what it is given\<close>

text \<open>
  A remote side for the container uploads: it knows the URLs that answer 200 to \<^verbatim>\<open>HEAD\<close>
  and the upload sessions it has opened (location and repository). \<^verbatim>\<open>POST\<close> on the uploads
  URL of a repository opens a session and answers 202 with its location; \<^verbatim>\<open>PUT\<close> of a
  file on a session's location with \<^verbatim>\<open>&digest=d\<close> stores the blob \<open>d\<close> of that repository and
  answers 201; any other \<^verbatim>\<open>PUT\<close> stores what it is given under its URL. The local files are
  \<open>fs\<close>, the hash is \<open>h\<close>.
\<close>

record registry =
  present :: "string list"
  sessions :: "(string \<times> string) list"

definition ok_response :: "int \<Rightarrow> string \<Rightarrow> response" where
  "ok_response code status = \<lparr>StatusCode = code, RespStatus = status, Location = []\<rparr>"

definition registry_post :: "string \<Rightarrow> registry \<Rightarrow> (string + response) \<times> registry" where
  "registry_post url r =
     (Inr \<lparr>StatusCode = 202, RespStatus = ''202 Accepted'', Location = url @ ''session?id=1''\<rparr>,
      r\<lparr>sessions := (url @ ''session?id=1'',
                      take (length url - length ''/blobs/uploads/'') url) # sessions r\<rparr>)"

definition registry_Do :: "request \<Rightarrow> registry \<Rightarrow> (string + response) \<times> registry" where
  "registry_Do req r =
     (if reqMethod req = ''HEAD''
      then (Inr (if List.member (present r) (reqURL req) then ok_response 200 ''200 OK''
                 else ok_response 404 ''404 Not Found''), r)
      else if reqMethod req = ''PUT''
      then (case reqBody req of
              FileBody file \<Rightarrow>
                (case find (\<lambda>s. HasPrefix (reqURL req) (fst s @ ''&digest='')) (sessions r) of
                   None \<Rightarrow> (Inr (ok_response 404 ''404 Not Found''), r)
                 | Some s \<Rightarrow>
                     (Inr (ok_response 201 ''201 Created''),
                      r\<lparr>present := (snd s @ ''/blobs/''
                                      @ drop (length (fst s @ ''&digest='')) (reqURL req))
                                    # present r\<rparr>))
            | _ \<Rightarrow> (Inr (ok_response 201 ''201 Created''), r\<lparr>present := reqURL req # present r\<rparr>))
      else (Inr (ok_response 405 ''405 Method Not Allowed''), r))"

definition registry_env ::
  "(string \<Rightarrow> bytes option) \<Rightarrow> (bytes \<Rightarrow> string) \<Rightarrow> registry upload_env" where
  "registry_env fs h =
     \<lparr>os_Stat = (\<lambda>file. case fs file of None \<Rightarrow> Inl ''no such file or directory''
                                     | Some content \<Rightarrow> Inr (int (length content))),
      os_Open = (\<lambda>file. case fs file of None \<Rightarrow> Some ''no such file or directory''
                                     | Some content \<Rightarrow> None),
      hash_Copy = (\<lambda>file. case fs file of None \<Rightarrow> Inl ''bad file descriptor''
                                       | Some content \<Rightarrow> Inr content),
      sha256_hex = h,
      NewRequest = (\<lambda>method url. None),
      Do = registry_Do,
      post = registry_post,
      token = ''ghp_token'',
      json_config = (\<lambda>layers created. Inr (concat layers)),
      json_manifest = (\<lambda>manifest. Inr (concat (map layerDigest (Layers manifest))))\<rparr>"

text \<open>
  The URL of a blob, the URL on which this registry receives a layer, the digest of a
  local file, and the two kinds of upload among requests.
\<close>

definition blob_url :: "string \<Rightarrow> string \<Rightarrow> string" where
  "blob_url baseURL digest = baseURL @ ''/blobs/'' @ digest"

definition layer_put_url :: "string \<Rightarrow> string \<Rightarrow> string" where
  "layer_put_url baseURL digest = baseURL @ ''/blobs/uploads/session?id=1&digest='' @ digest"

definition file_digest :: "(string \<Rightarrow> bytes option) \<Rightarrow> (bytes \<Rightarrow> string) \<Rightarrow> string \<Rightarrow> string" where
  "file_digest fs h file = ''sha256:'' @ h (case fs file of None \<Rightarrow> [] | Some content \<Rightarrow> content)"

definition is_layer_put :: "string \<Rightarrow> string \<Rightarrow> request \<Rightarrow> bool" where
  "is_layer_put baseURL digest req =
     (reqMethod req = ''PUT'' \<and> reqURL req = layer_put_url baseURL digest
      \<and> (case reqBody req of FileBody file \<Rightarrow> True | _ \<Rightarrow> False))"

definition is_manifest_put :: "string \<Rightarrow> request \<Rightarrow> bool" where
  "is_manifest_put url req =
     (reqMethod req = ''PUT'' \<and> reqURL req = url
      \<and> (case reqBody req of BytesBody data \<Rightarrow> True | _ \<Rightarrow> False))"

section \<open>Helper definitions and concrete inputs\<close>

text \<open>
  The traces that the statements below name, and the concrete packages, environments and
  worlds on which they are evaluated.
\<close>

definition failing_env :: sync_env where
  "failing_env = \<lparr>sync_maxRetries = 3, sync_retryDelay = 5000000000,
     SOURCE_ORGANIZATION = ''src-org'', TARGET_ORGANIZATION = ''dst-org'',
     DownloadPackageVersion = (\<lambda>org p v k. ([], Some ''connection reset'')),
     UploadPackageVersion = (\<lambda>org p v d. None)\<rparr>"

definition working_env :: sync_env where
  "working_env = \<lparr>sync_maxRetries = 3, sync_retryDelay = 5000000000,
     SOURCE_ORGANIZATION = ''src-org'', TARGET_ORGANIZATION = ''dst-org'',
     DownloadPackageVersion = (\<lambda>org p v k. (''tarball bytes'', None)),
     UploadPackageVersion = (\<lambda>org p v d. None)\<rparr>"

definition package_json :: File where
  "package_json = \<lparr>FileName = ''package.json'', FileSize = 512, FileSHA256 = ''ab12'',
                    FileURL = ''https://npm.pkg.github.com/download/package.json''\<rparr>"

definition tarball :: File where
  "tarball = \<lparr>FileName = ''ui-1.0.0.tgz'', FileSize = 4096, FileSHA256 = ''cd34'',
               FileURL = ''https://npm.pkg.github.com/download/ui-1.0.0.tgz''\<rparr>"

definition version_ok :: Version where
  "version_ok = \<lparr>VersionID = ''V1'', VersionName = ''1.0.0'', Files = [package_json, tarball],
                  CreatedAt = ''2024-01-01'', UpdatedAt = ''2024-01-02''\<rparr>"

definition version_nojson :: Version where
  "version_nojson = \<lparr>VersionID = ''V2'', VersionName = ''1.1.0'', Files = [tarball],
                  CreatedAt = ''2024-02-01'', UpdatedAt = ''2024-02-02''\<rparr>"

definition npm_package :: "string \<Rightarrow> Version list \<Rightarrow> Package" where
  "npm_package name versions =
     \<lparr>PkgID = ''P1'', PkgName = name, PkgType = ''npm'', Visibility = ''private'',
      Owner = \<lparr>OwnerLogin = ''src-org'', OwnerType = ''Organization''\<rparr>,
      Versions = versions, Repository = None, Statistics = None\<rparr>"

definition scoped_pkg :: Package where
  "scoped_pkg = npm_package ''@acme/ui'' [version_ok]"

definition nojson_pkg :: Package where
  "nojson_pkg = npm_package ''@acme/ui'' [version_ok, version_nojson]"

definition lodash_pkg :: Package where
  "lodash_pkg = npm_package ''lodash'' [version_ok]"

definition backoff_events :: "int \<Rightarrow> int \<Rightarrow> nat \<Rightarrow> uevent list" where
  "backoff_events delay a n =
     concat (map (\<lambda>j. [UpAttempt (a + int j), UpWait (duration_mul delay (a + int j + 1))])
               [0..<n])"

definition download_events :: "string \<Rightarrow> string \<Rightarrow> int \<Rightarrow> int \<Rightarrow> nat \<Rightarrow> wevent list" where
  "download_events p v delay a n =
     concat (map (\<lambda>j. [EvDownload p v, EvSleep (duration_mul delay (a + int j + 1))]) [0..<n])"

definition always_503 :: "unit \<Rightarrow> string option \<times> unit" where
  "always_503 w = (Some ''503 Service Unavailable'', w)"

definition cancel_in_last_wait :: "nat \<Rightarrow> string option" where
  "cancel_in_last_wait k = (if k = 2 then Some ''context canceled'' else None)"

definition no_retry_env :: sync_env where
  "no_retry_env = failing_env\<lparr>sync_maxRetries := 0\<rparr>"

definition first_vars :: "string \<Rightarrow> string \<Rightarrow> variables" where
  "first_vars org ptype = \<lparr>login = org, first = 100, after = None, packageType = ptype\<rparr>"

definition node_ui :: PackageNode where
  "node_ui = \<lparr>nodeID = ''P1'', nodeName = ''@acme/ui'', nodePackageType = ''npm'',
              nodeRepositoryName = ''ui'', nodeRepositoryURL = ''https://github.com/acme/ui'',
              nodeDownloadsTotalCount = 42,
              nodeVersions = [\<lparr>verID = ''V1'', verVersion = ''1.0.0'',
                 verFiles = [\<lparr>fileName = ''package.json'', fileSize = 512, fileSHA256 = ''ab12'',
                              fileURL = ''https://npm.pkg.github.com/download/package.json''\<rparr>],
                 verMetadataPackageType = ''npm'',
                 verCreatedAt = ''2024-01-01'', verUpdatedAt = ''2024-01-02''\<rparr>]\<rparr>"

definition node_cli :: PackageNode where
  "node_cli = \<lparr>nodeID = ''P2'', nodeName = ''@acme/cli'', nodePackageType = ''npm'',
              nodeRepositoryName = ''cli'', nodeRepositoryURL = ''https://github.com/acme/cli'',
              nodeDownloadsTotalCount = 7, nodeVersions = []\<rparr>"

definition page_one :: PackageQuery where
  "page_one = \<lparr>EndCursor = ''cursor-1'', HasNextPage = True, Nodes = [node_ui]\<rparr>"

definition page_two :: PackageQuery where
  "page_two = \<lparr>EndCursor = ''cursor-2'', HasNextPage = False, Nodes = [node_cli]\<rparr>"

definition throttled_world :: world where
  "throttled_world =
     \<lparr>probes = [Inr \<lparr>Remaining = 0, ResetAt = 5\<rparr>, Inr \<lparr>Remaining = 4999, ResetAt = 3600\<rparr>,
                Inr \<lparr>Remaining = 4998, ResetAt = 3600\<rparr>],
      pages = [Inr page_one, Inr page_two], now = 0, events = []\<rparr>"

definition broken_world :: world where
  "broken_world =
     \<lparr>probes = [Inr \<lparr>Remaining = 10, ResetAt = 3600\<rparr>, Inr \<lparr>Remaining = 9, ResetAt = 3600\<rparr>],
      pages = [Inr page_one, Inl ''502 Bad Gateway''], now = 0, events = []\<rparr>"

definition throttled_after :: world where
  "throttled_after = \<lparr>probes = [], pages = [], now = 5,
     events = [EvProbe (Inr \<lparr>Remaining = 0, ResetAt = 5\<rparr>), EvSleepUntil 5,
               EvProbe (Inr \<lparr>Remaining = 4999, ResetAt = 3600\<rparr>),
               EvPageQuery (first_vars ''acme'' ''npm'') 5,
               EvProbe (Inr \<lparr>Remaining = 4998, ResetAt = 3600\<rparr>),
               EvPageQuery ((first_vars ''acme'' ''npm'')\<lparr>after := Some ''cursor-1''\<rparr>) 5]\<rparr>"

definition after_first_query :: world where
  "after_first_query = \<lparr>probes = [Inr \<lparr>Remaining = 4998, ResetAt = 3600\<rparr>],
     pages = [Inr page_two], now = 5,
     events = [EvProbe (Inr \<lparr>Remaining = 0, ResetAt = 5\<rparr>), EvSleepUntil 5,
               EvProbe (Inr \<lparr>Remaining = 4999, ResetAt = 3600\<rparr>),
               EvPageQuery (first_vars ''acme'' ''npm'') 5]\<rparr>"

definition layer_uploads :: "string \<Rightarrow> string \<Rightarrow> request list \<Rightarrow> nat" where
  "layer_uploads baseURL digest sent = length (filter (is_layer_put baseURL digest) sent)"

definition manifest_uploads :: "string \<Rightarrow> request list \<Rightarrow> nat" where
  "manifest_uploads url sent = length (filter (is_manifest_put url) sent)"

definition base_url :: "UploadOptions \<Rightarrow> string" where
  "base_url opts = optOrganization opts @ ''/'' @ optPackageName opts"

definition manifest_url :: "UploadOptions \<Rightarrow> string" where
  "manifest_url opts =
     optOrganization opts @ ''/'' @ optPackageName opts @ ''/manifests/'' @ optVersion opts"

definition layer_files :: "UploadOptions \<Rightarrow> string list" where
  "layer_files opts = filter isContainerLayer (optFiles opts)"

definition sent_of :: "('r \<times> request list \<times> uevent list) \<times> 'w \<Rightarrow> request list" where
  "sent_of res = fst (snd (fst res))"

definition layer_store :: "string \<Rightarrow> bytes option" where
  "layer_store file =
     (if file = ''layers/base.tar'' then Some ''base''
      else if file = ''layers/app-1.tar'' then Some ''app1''
      else if file = ''layers/app-2.tgz'' then Some ''app2''
      else None)"

definition toy_hex :: "bytes \<Rightarrow> string" where
  "toy_hex content = content"

definition web_v1 :: UploadOptions where
  "web_v1 = \<lparr>optOrganization = ''acme'', optPackageName = ''web'', optVersion = ''1.0'',
             optPackageType = ''container'', optMetadata = [(''created'', MString ''2024-01-01'')],
             optFiles = [''layers/base.tar'', ''layers/app-1.tar'', ''manifest.json''],
             optVisibility = ''private''\<rparr>"

definition web_v2 :: UploadOptions where
  "web_v2 = \<lparr>optOrganization = ''acme'', optPackageName = ''web'', optVersion = ''2.0'',
             optPackageType = ''container'', optMetadata = [],
             optFiles = [''layers/base.tar'', ''layers/app-2.tgz''],
             optVisibility = ''private''\<rparr>"

definition empty_registry :: registry where
  "empty_registry = \<lparr>present = [], sessions = []\<rparr>"

definition seeded_registry :: registry where
  "seeded_registry = \<lparr>present = [''acme/web/blobs/sha256:base'', ''acme/web/blobs/sha256:app1''],
                       sessions = []\<rparr>"

section \<open>Properties of the name mapping\<close>

lemma load_rows_filter:
  "load_rows (filter (\<lambda>r. 2 \<le> length r) rows) m = load_rows rows m"
  by (induction rows arbitrary: m) simp_all

lemma load_rows_short:
  "length r < 2 \<Longrightarrow> load_rows (xs @ r # ys) m = load_rows (xs @ ys) m"
  by (induction xs arbitrary: m) simp_all

text \<open>
  Claim C8. Name resolution is a function of the loaded table alone: a name that is a key
  of the table resolves to the value stored for it, every other name resolves to itself,
  and with the table of a fresh \<^verbatim>\<open>PackageSync\<close> (no mapping file given, so that
  \<^verbatim>\<open>LoadMappings\<close> returns at once without touching the table) every name resolves to itself.
\<close>

theorem getTargetPackageName_total:
  "(\<forall>t. mappings s name = Some t \<longrightarrow> getTargetPackageName s name = t)
   \<and> (name \<notin> dom (mappings s) \<longrightarrow> getTargetPackageName s name = name)
   \<and> LoadMappings fs [] NewPackageSync = Return (None, NewPackageSync)
   \<and> getTargetPackageName NewPackageSync name = name"
  by (auto simp: getTargetPackageName_def LoadMappings_def NewPackageSync_def
           split: option.splits)

text \<open>
  The table \<^verbatim>\<open>{"pkgA": "pkgA2"}\<close>: \<^verbatim>\<open>pkgA\<close> resolves to \<^verbatim>\<open>pkgA2\<close> and \<^verbatim>\<open>pkgB\<close> to itself.
\<close>

theorem getTargetPackageName_total_witness:
  "mappings \<lparr>mappings = [''pkgA'' \<mapsto> ''pkgA2'']\<rparr> ''pkgA'' = Some ''pkgA2''
   \<and> getTargetPackageName \<lparr>mappings = [''pkgA'' \<mapsto> ''pkgA2'']\<rparr> ''pkgA'' = ''pkgA2''
   \<and> ''pkgB'' \<notin> dom (mappings \<lparr>mappings = [''pkgA'' \<mapsto> ''pkgA2'']\<rparr>)
   \<and> getTargetPackageName \<lparr>mappings = [''pkgA'' \<mapsto> ''pkgA2'']\<rparr> ''pkgB'' = ''pkgB''"
  using getTargetPackageName_total
          [of "\<lparr>mappings = [''pkgA'' \<mapsto> ''pkgA2'']\<rparr>" "''pkgA''" "\<lambda>_. Records []"]
        getTargetPackageName_total
          [of "\<lparr>mappings = [''pkgA'' \<mapsto> ''pkgA2'']\<rparr>" "''pkgB''" "\<lambda>_. Records []"]
  by simp

text \<open>
  Claim C10. With a non-empty path whose file parses to no record, \<^verbatim>\<open>LoadMappings\<close> does
  not return: it panics on \<^verbatim>\<open>records[1:]\<close>. With at least the header row it returns no
  error, the header is skipped, and the rows with fewer than two columns leave no trace:
  the table is the one obtained from the rows with two or more columns alone.
\<close>

theorem LoadMappings_empty_file_panics:
  "LoadMappings (\<lambda>_. Records []) (c # cs) s
     = Panic ''runtime error: slice bounds out of range [1:0]''
   \<and> LoadMappings (\<lambda>_. Records (header # rows)) (c # cs) s
     = Return (None, s\<lparr>mappings := load_rows (filter (\<lambda>r. 2 \<le> length r) rows) (mappings s)\<rparr>)"
  by (simp add: LoadMappings_def slice_from1_def load_rows_filter)

section \<open>Properties of the scheduler\<close>

lemma mset_remove_nth:
  assumes "k < length xs"
  shows "mset xs = add_mset (xs ! k) (mset (remove_nth k xs))"
proof -
  have "xs = take k xs @ xs ! k # drop (Suc k) xs"
    using assms by (rule id_take_nth_drop)
  then have "mset xs = mset (take k xs @ xs ! k # drop (Suc k) xs)" by simp
  then show ?thesis by (simp add: remove_nth_def)
qed

lemma set_remove_nth:
  "k < length xs \<Longrightarrow> set xs = insert (xs ! k) (set (remove_nth k xs))"
  using mset_remove_nth [of k xs] by (metis set_mset_add_mset_insert set_mset_mset)

lemma completion_order_mset:
  "0 < limit \<Longrightarrow> mset (completion_order limit todo inflight sched) = mset todo + mset inflight"
proof (induction limit todo inflight sched rule: completion_order.induct)
  case (1 limit todo inflight sched)
  show ?case
  proof (cases "spawns_next limit todo inflight sched")
    case True
    then have "todo \<noteq> []" by (simp add: spawns_next_def)
    with "1.IH"(1) [OF True "1.prems"] True show ?thesis
      by (subst completion_order.simps) (cases todo; simp)
  next
    case False
    show ?thesis
    proof (cases "inflight = []")
      case True
      with False "1.prems" have "todo = []" by (simp add: spawns_next_def)
      with True False show ?thesis by (subst completion_order.simps) simp
    next
      case ne: False
      define k where "k = (sched_head sched - 1) mod length inflight"
      have k: "k < length inflight" using ne by (simp add: k_def)
      from "1.IH"(2) [OF False ne k_def "1.prems"] mset_remove_nth [OF k] False ne
      show ?thesis
        by (subst completion_order.simps) (simp add: Let_def k_def)
    qed
  qed
qed

lemma completion_order_set:
  "0 < limit \<Longrightarrow> set (completion_order limit todo [] sched) = set todo"
  using completion_order_mset [of limit todo "[]" sched]
  by (metis mset_eq_setD add.right_neutral mset.simps(1))

lemma completion_order_distinct:
  "0 < limit \<Longrightarrow> distinct (map f todo) \<Longrightarrow>
     distinct (map f (completion_order limit todo [] sched))"
  using completion_order_mset [of limit todo "[]" sched]
  by (metis add.right_neutral mset.simps(1) mset_eq_imp_distinct_iff mset_map)

section \<open>Properties of the concurrent path\<close>

lemma reports_append: "reports (xs @ ys) = reports xs @ reports ys"
  by (induction xs rule: reports.induct) simp_all

lemma download_loop_reports:
  "reports (snd (snd (download_loop env p v retries data err tr))) = reports tr"
proof (induction env p v retries data err tr rule: download_loop.induct)
  case (1 env pkgName vName retries data err tr)
  show ?case
    using 1 by (subst download_loop.simps) (simp add: Let_def reports_append)
qed

lemma version_task_reports: "reports (fst (version_task env pkg t v)) = []"
  using download_loop_reports [of env "PkgName pkg" "VersionName v" 0 "[]" None "[]"]
  by (auto simp: version_task_def reports_append split: prod.splits option.splits)

lemma run_versions_reports:
  "reports (snd (run_versions env pkg t pending sched errs tr)) = reports tr"
proof (induction env pkg t pending sched errs tr rule: run_versions.induct)
  case (1 env pkg t pending sched errs tr)
  show ?case
    using 1 by (subst run_versions.simps) (simp add: Let_def reports_append version_task_reports)
qed

lemma run_versions_errors:
  "fst (run_versions env pkg t pending sched errs tr) = [] \<longleftrightarrow>
     errs = [] \<and> \<not> list_ex (\<lambda>p. snd (version_task env pkg t (snd p)) \<noteq> None) pending"
proof (induction env pkg t pending sched errs tr rule: run_versions.induct)
  case (1 env pkg t pending sched errs tr)
  show ?case
  proof (cases "pending = []")
    case True
    then show ?thesis by (subst run_versions.simps) simp
  next
    case False
    define k where "k = sched_head sched mod length pending"
    have k: "k < length pending" using False by (simp add: k_def)
    have split: "set pending = insert (pending ! k) (set (remove_nth k pending))"
      using k by (rule set_remove_nth)
    show ?thesis
      using False "1.IH" [OF False k_def refl] split
      by (subst run_versions.simps) (auto simp: Let_def k_def list_ex_iff split: option.splits)
  qed
qed

lemma run_versions_keeps:
  "set tr \<subseteq> set (snd (run_versions env pkg t pending sched errs tr))"
proof (induction env pkg t pending sched errs tr rule: run_versions.induct)
  case (1 env pkg t pending sched errs tr)
  show ?case
    using 1 by (subst run_versions.simps) (auto simp: Let_def)
qed

lemma run_versions_done:
  "p \<in> set pending \<Longrightarrow>
     EvVersionDone (fst p) \<in> set (snd (run_versions env pkg t pending sched errs tr))"
proof (induction env pkg t pending sched errs tr rule: run_versions.induct)
  case (1 env pkg t pending sched errs tr)
  from "1.prems" have ne: "pending \<noteq> []" by auto
  define k where "k = sched_head sched mod length pending"
  have k: "k < length pending" using ne by (simp add: k_def)
  have split: "set pending = insert (pending ! k) (set (remove_nth k pending))"
    using k by (rule set_remove_nth)
  define errs' where "errs' = (case snd (version_task env pkg t (snd (pending ! k))) of
                                 None \<Rightarrow> errs | Some e \<Rightarrow> errs @ [e])"
  define tr' where "tr' = tr @ fst (version_task env pkg t (snd (pending ! k)))
                             @ [EvVersionDone (fst (pending ! k))]"
  have unfold: "run_versions env pkg t pending sched errs tr
                  = run_versions env pkg t (remove_nth k pending) (tl sched) errs' tr'"
    using ne by (subst run_versions.simps) (simp add: Let_def k_def errs'_def tr'_def)
  show ?case
  proof (cases "p = pending ! k")
    case True
    have "EvVersionDone (fst p) \<in> set tr'" by (simp add: tr'_def True)
    then show ?thesis
      using run_versions_keeps [of tr' env pkg t "remove_nth k pending" "tl sched" errs']
      by (auto simp: unfold)
  next
    case False
    with "1.prems" split have "p \<in> set (remove_nth k pending)" by auto
    from "1.IH" [OF ne k_def refl this] show ?thesis
      by (simp add: unfold errs'_def tr'_def)
  qed
qed

lemma list_ex_zip_snd:
  "length xs = length ys \<Longrightarrow> list_ex (\<lambda>p. P (snd p)) (zip xs ys) = list_ex P ys"
  by (induction xs ys rule: list_induct2) simp_all

lemma worker_invalid:
  "ValidatePackage pkg = Some err \<Longrightarrow> worker env s sched pkg = [EvSend (failed_report pkg err)]"
  by (simp add: worker_def failed_report_def)

lemma worker_valid:
  assumes "ValidatePackage pkg = None"
  shows "\<exists>body r. worker env s sched pkg = body @ [EvSend r] \<and> reports body = []
           \<and> (\<forall>k<length (Versions pkg). EvVersionDone k \<in> set body)
           \<and> PackageName r = PkgName pkg
           \<and> Status r = (if list_ex (version_failed env pkg (getTargetPackageName s (PkgName pkg)))
                                (Versions pkg)
                          then ''Partial Success'' else ''Success'')"
proof -
  define t where "t = getTargetPackageName s (PkgName pkg)"
  define pending where "pending = zip [0..<length (Versions pkg)] (Versions pkg)"
  define res where "res = run_versions env pkg t pending sched [] []"
  have dn: "EvVersionDone k \<in> set (snd res)" if "k < length (Versions pkg)" for k
  proof -
    have "(k, Versions pkg ! k) \<in> set pending"
      using that by (force simp: pending_def in_set_zip)
    from run_versions_done [OF this] show ?thesis by (simp add: res_def)
  qed
  have errs: "(fst res = []) = (\<not> list_ex (version_failed env pkg t) (Versions pkg))"
    unfolding res_def run_versions_errors pending_def
    using list_ex_zip_snd [of "[0..<length (Versions pkg)]" "Versions pkg"
                              "\<lambda>v. snd (version_task env pkg t v) \<noteq> None"]
    by (simp add: version_failed_def [abs_def])
  have rep: "reports (snd res) = []"
    by (simp add: res_def run_versions_reports)
  show ?thesis
    using assms dn errs rep
    by (simp add: worker_def Let_def t_def [symmetric] pending_def [symmetric] res_def [symmetric])
qed

lemma own_events_tagged:
  "distinct (map fst order) \<Longrightarrow> (i, p) \<in> set order \<Longrightarrow>
     own_events i (concat (map (\<lambda>(j, q). map (Pair j) (f j q)) order)) = f i p"
proof (induction order)
  case Nil
  then show ?case by simp
next
  case (Cons x order)
  obtain j q where x: "x = (j, q)" by (cases x)
  have tag: "map snd (filter (\<lambda>e. fst e = i) (map (Pair j) es)) = (if i = j then es else [])"
    for es :: "wevent list"
    by (induction es) (simp_all add: comp_def)
  show ?case
  proof (cases "i = j")
    case True
    with Cons.prems x have p: "p = q" and "i \<notin> fst ` set order"
      by (auto simp: image_iff) 
    then have "[e\<leftarrow>concat (map (\<lambda>(j, q). map (Pair j) (f j q)) order). fst e = i] = []"
      by (force simp: filter_empty_conv)
    then show ?thesis
      using True p x tag by (simp add: own_events_def)
  next
    case False
    with Cons.prems x have "(i, p) \<in> set order" "distinct (map fst order)" by auto
    from Cons.IH [OF this(2,1)] False x tag show ?thesis
      by (simp add: own_events_def)
  qed
qed

lemma processConcurrently_own:
  assumes "i < length packages"
  shows "own_events i (processConcurrently env s sched vsched packages)
           = worker env s (vsched i) (packages ! i)"
proof -
  define order where
    "order = completion_order maxConcurrent (zip [0..<length packages] packages) [] sched"
  have pos: "0 < maxConcurrent" by (simp add: maxConcurrent_def)
  have "(i, packages ! i) \<in> set (zip [0..<length packages] packages)"
    using assms by (force simp: in_set_zip)
  then have a: "(i, packages ! i) \<in> set order"
    by (simp add: order_def completion_order_set [OF pos])
  have b: "distinct (map fst order)"
    unfolding order_def by (rule completion_order_distinct [OF pos]) simp
  from own_events_tagged [OF b a, of "\<lambda>j q. worker env s (vsched j) q"] show ?thesis
    by (simp add: processConcurrently_def order_def)
qed

lemma HasPrefix_at: "HasPrefix s ''@'' \<longleftrightarrow> (\<exists>rest. s = CHR ''@'' # rest)"
  by (cases s) (simp_all add: HasPrefix_def)

lemma validate_versions_find:
  "validate_versions validator vs =
     (case find (\<lambda>v. validator_ValidateVersion validator v \<noteq> None) vs of
        None \<Rightarrow> None | Some v \<Rightarrow> validator_ValidateVersion validator v)"
  by (induction vs) (auto split: option.splits)

lemmas concrete_defs = failing_env_def working_env_def package_json_def tarball_def
  version_ok_def version_nojson_def npm_package_def scoped_pkg_def nojson_pkg_def lodash_pkg_def

lemmas validate_defs = ValidatePackage_def GetValidator_def PackageTypeContainer_def
  PackageTypeNpm_def PackageTypeMaven_def PackageTypeNuGet_def PackageTypeRubyGems_def
  HasPrefix_def HasSuffix_def

section \<open>The claims on the concurrent path\<close>

lemma scoped_pkg_valid: "ValidatePackage scoped_pkg = None"
  by (simp add: concrete_defs validate_defs)

lemma scoped_pkg_all_fail:
  "version_failed failing_env scoped_pkg ''@acme/ui'' version_ok"
  by (simp add: version_failed_def version_task_def download_loop.simps concrete_defs)

lemma nojson_pkg_invalid:
  "ValidatePackage nojson_pkg
     = Some (ValidationError [] ''npm'' ''missing required package.json file'')"
  by (simp add: concrete_defs validate_defs)

text \<open>
  Claim C1, as the code has it. For every package of a run of \<^verbatim>\<open>processConcurrently\<close>, under
  every schedule, exactly one report is sent and its status is \<^verbatim>\<open>Failed\<close> when the
  validation of the package failed, \<^verbatim>\<open>Partial Success\<close> when the validation passed and at
  least one version's goroutine reported an error (also when every version did), and
  \<^verbatim>\<open>Success\<close> when the validation passed and no version reported an error.
\<close>

theorem report_status_law:
  "i < length packages \<Longrightarrow>
     map Status (reports (own_events i (processConcurrently env s sched vsched packages)))
       = [if ValidatePackage (packages ! i) \<noteq> None then ''Failed''
          else if list_ex (version_failed env (packages ! i)
                             (getTargetPackageName s (PkgName (packages ! i))))
                    (Versions (packages ! i))
          then ''Partial Success'' else ''Success'']"
proof (cases "ValidatePackage (packages ! i)")
  case None
  assume i: "i < length packages"
  from worker_valid [OF None, of env s "vsched i"] obtain body r where
    "worker env s (vsched i) (packages ! i) = body @ [EvSend r]" "reports body = []"
    "Status r = (if list_ex (version_failed env (packages ! i)
                               (getTargetPackageName s (PkgName (packages ! i))))
                      (Versions (packages ! i))
                 then ''Partial Success'' else ''Success'')"
    by blast
  then show ?thesis
    using None by (simp add: processConcurrently_own [OF i] reports_append)
next
  case (Some err)
  assume i: "i < length packages"
  show ?thesis
    using Some
    by (simp add: processConcurrently_own [OF i] worker_invalid [OF Some] failed_report_def)
qed

text \<open>
  A package with one version whose three download attempts all fail is reported
  \<^verbatim>\<open>Partial Success\<close>.
\<close>

theorem report_status_law_witness:
  "(0::nat) < length [scoped_pkg]
   \<and> map Status (reports (own_events 0
        (processConcurrently failing_env NewPackageSync [] (\<lambda>_. []) [scoped_pkg])))
      = [''Partial Success'']"
  using report_status_law [of 0 "[scoped_pkg]" failing_env NewPackageSync "[]" "\<lambda>_. []"]
    scoped_pkg_valid scoped_pkg_all_fail
  by (simp add: getTargetPackageName_def NewPackageSync_def)
     (simp add: scoped_pkg_def npm_package_def)

text \<open>
  Where the claim as worded fails: the package below passes validation, its only version
  fails, so all versions failed and the worded classification is \<^verbatim>\<open>Failed\<close>; the report
  that is sent says \<^verbatim>\<open>Partial Success\<close>.
\<close>

theorem all_versions_failed_counterexample:
  "ValidatePackage scoped_pkg = None
   \<and> map (version_failed failing_env scoped_pkg ''@acme/ui'') (Versions scoped_pkg) = [True]
   \<and> spec_classification (ValidatePackage scoped_pkg \<noteq> None)
        (map (version_failed failing_env scoped_pkg ''@acme/ui'') (Versions scoped_pkg)) = ''Failed''
   \<and> map Status (reports (own_events 0
        (processConcurrently failing_env NewPackageSync [] (\<lambda>_. []) [scoped_pkg])))
      = [''Partial Success'']"
proof -
  have t: "getTargetPackageName NewPackageSync (PkgName scoped_pkg) = ''@acme/ui''"
    by (simp add: getTargetPackageName_def NewPackageSync_def scoped_pkg_def npm_package_def)
  have vs: "Versions scoped_pkg = [version_ok]" by (simp add: scoped_pkg_def npm_package_def)
  from worker_valid [OF scoped_pkg_valid, of failing_env NewPackageSync "[]"]
  obtain body r where
    "worker failing_env NewPackageSync [] scoped_pkg = body @ [EvSend r]" "reports body = []"
    "Status r = ''Partial Success''"
    using scoped_pkg_all_fail by (auto simp: t vs)
  then have "map Status (reports (own_events 0
        (processConcurrently failing_env NewPackageSync [] (\<lambda>_. []) [scoped_pkg])))
      = [''Partial Success'']"
    by (simp add: processConcurrently_own reports_append)
  then show ?thesis
    using scoped_pkg_valid scoped_pkg_all_fail
    by (simp add: vs spec_classification_def)
qed

text \<open>
  Claim C2, as the code has it. The check that \<^verbatim>\<open>processConcurrently\<close> makes before it
  starts the version goroutines is the helper \<^verbatim>\<open>ValidatePackage\<close>: for a supported type it
  applies the package-level rule and then the version-level rule to every version in
  order, and returns the first error. So a version that breaks its rule is found in this
  check: the package is reported \<^verbatim>\<open>Failed\<close> with that version's validation message, and
  the report is the only event of the package: nothing is downloaded or uploaded.
\<close>

theorem precheck_validates_versions:
  assumes "GetValidator (PkgType pkg) = Inr validator"
  shows "ValidatePackage pkg =
           (case validator_ValidatePackage validator pkg of
              Some err \<Rightarrow> Some err
            | None \<Rightarrow>
                (case find (\<lambda>v. validator_ValidateVersion validator v \<noteq> None) (Versions pkg) of
                   None \<Rightarrow> None
                 | Some v \<Rightarrow> validator_ValidateVersion validator v))
         \<and> (\<forall>v err. validator_ValidatePackage validator pkg = None
               \<and> find (\<lambda>v. validator_ValidateVersion validator v \<noteq> None) (Versions pkg) = Some v
               \<and> validator_ValidateVersion validator v = Some err
               \<and> i < length packages \<and> packages ! i = pkg
             \<longrightarrow> own_events i (processConcurrently env s sched vsched packages)
                   = [EvSend (failed_report pkg err)])"
proof -
  have eq: "ValidatePackage pkg =
           (case validator_ValidatePackage validator pkg of
              Some err \<Rightarrow> Some err
            | None \<Rightarrow>
                (case find (\<lambda>v. validator_ValidateVersion validator v \<noteq> None) (Versions pkg) of
                   None \<Rightarrow> None
                 | Some v \<Rightarrow> validator_ValidateVersion validator v))"
    unfolding ValidatePackage_def assms by (simp only: validate_versions_find sum.case)
  show ?thesis
  proof (intro conjI allI impI)
    show "ValidatePackage pkg =
           (case validator_ValidatePackage validator pkg of
              Some err \<Rightarrow> Some err
            | None \<Rightarrow>
                (case find (\<lambda>v. validator_ValidateVersion validator v \<noteq> None) (Versions pkg) of
                   None \<Rightarrow> None
                 | Some v \<Rightarrow> validator_ValidateVersion validator v))" by (rule eq)
  next
    fix v err
    assume h: "validator_ValidatePackage validator pkg = None
               \<and> find (\<lambda>v. validator_ValidateVersion validator v \<noteq> None) (Versions pkg) = Some v
               \<and> validator_ValidateVersion validator v = Some err
               \<and> i < length packages \<and> packages ! i = pkg"
    then have "ValidatePackage pkg = Some err" by (simp add: eq)
    from worker_invalid [OF this] h
    show "own_events i (processConcurrently env s sched vsched packages)
                   = [EvSend (failed_report pkg err)]"
      by (simp add: processConcurrently_own)
  qed
qed

text \<open>
  An npm package with a scoped name and a second version without \<^verbatim>\<open>package.json\<close>.
\<close>

theorem precheck_validates_versions_witness:
  "GetValidator (PkgType nojson_pkg) = Inr NpmValidator
   \<and> validator_ValidatePackage NpmValidator nojson_pkg = None
   \<and> find (\<lambda>v. validator_ValidateVersion NpmValidator v \<noteq> None) (Versions nojson_pkg)
       = Some version_nojson
   \<and> ValidatePackage nojson_pkg
       = Some (ValidationError [] ''npm'' ''missing required package.json file'')
   \<and> own_events 0 (processConcurrently working_env NewPackageSync [] (\<lambda>_. []) [nojson_pkg])
       = [EvSend (failed_report nojson_pkg
                    (ValidationError [] ''npm'' ''missing required package.json file''))]"
proof -
  have g: "GetValidator (PkgType nojson_pkg) = Inr NpmValidator"
    by (simp add: concrete_defs validate_defs)
  have p: "validator_ValidatePackage NpmValidator nojson_pkg = None"
    by (simp add: concrete_defs validate_defs)
  have f: "find (\<lambda>v. validator_ValidateVersion NpmValidator v \<noteq> None) (Versions nojson_pkg)
       = Some version_nojson"
    by (simp add: concrete_defs validate_defs)
  have e: "validator_ValidateVersion NpmValidator version_nojson
       = Some (ValidationError [] ''npm'' ''missing required package.json file'')"
    by (simp add: concrete_defs validate_defs)
  from precheck_validates_versions [OF g, of 0 "[nojson_pkg]" working_env NewPackageSync "[]" "\<lambda>_. []"]
    g p f e show ?thesis by simp
qed

text \<open>
  Where the claim as worded fails: the package-level rule holds for the package below, one
  of its versions has no \<^verbatim>\<open>package.json\<close>, and the check made before the fan-out returns that
  version's error; the whole run is one \<^verbatim>\<open>Failed\<close> report, with no transfer of any version
  in which the violation could have surfaced.
\<close>

theorem version_rule_in_precheck_counterexample:
  "validator_ValidatePackage NpmValidator nojson_pkg = None
   \<and> validator_ValidateVersion NpmValidator version_nojson
       = Some (ValidationError [] ''npm'' ''missing required package.json file'')
   \<and> ValidatePackage nojson_pkg
       = Some (ValidationError [] ''npm'' ''missing required package.json file'')
   \<and> processConcurrently working_env NewPackageSync [] (\<lambda>_. []) [nojson_pkg]
       = [(0, EvSend (failed_report nojson_pkg
                    (ValidationError [] ''npm'' ''missing required package.json file'')))]"
proof -
  have "processConcurrently working_env NewPackageSync [] (\<lambda>_. []) [nojson_pkg]
       = [(0, EvSend (failed_report nojson_pkg
                    (ValidationError [] ''npm'' ''missing required package.json file'')))]"
    by (simp add: processConcurrently_def completion_order.simps spawns_next_def
          maxConcurrent_def sched_head_def remove_nth_def worker_invalid [OF nojson_pkg_invalid])
  then show ?thesis
    using nojson_pkg_invalid by (simp add: concrete_defs validate_defs)
qed

text \<open>
  Claim C3. For every package \<open>i\<close> of a run of \<^verbatim>\<open>processConcurrently\<close>, under every schedule
  of the workers and of the version goroutines, the events of the package are a body
  without any report followed by one report, which carries the package's name: exactly
  one report is sent, and it is the last thing the worker does. When the validation
  passed, the end of every version's goroutine is in the body, so before the report.
\<close>

theorem one_report_after_versions:
  assumes "i < length packages"
  shows "\<exists>body r. own_events i (processConcurrently env s sched vsched packages) = body @ [EvSend r]
           \<and> reports body = []
           \<and> PackageName r = PkgName (packages ! i)
           \<and> (ValidatePackage (packages ! i) = None \<longrightarrow>
                (\<forall>k<length (Versions (packages ! i)). EvVersionDone k \<in> set body))"
proof (cases "ValidatePackage (packages ! i)")
  case None
  from worker_valid [OF None, of env s "vsched i"] show ?thesis
    by (auto simp: processConcurrently_own [OF assms])
next
  case (Some err)
  show ?thesis
    using Some
    by (simp add: processConcurrently_own [OF assms] worker_invalid [OF Some] failed_report_def)
qed

text \<open>
  A valid package with one version, in a run where every transfer succeeds.
\<close>

theorem one_report_after_versions_witness:
  "(0::nat) < length [scoped_pkg] \<and> ValidatePackage ([scoped_pkg] ! 0) = None
   \<and> (\<exists>body r. own_events 0 (processConcurrently working_env NewPackageSync [] (\<lambda>_. [])
                                [scoped_pkg]) = body @ [EvSend r]
        \<and> reports body = [] \<and> PackageName r = ''@acme/ui'' \<and> EvVersionDone 0 \<in> set body)"
  using one_report_after_versions [of 0 "[scoped_pkg]" working_env NewPackageSync "[]" "\<lambda>_. []"]
    scoped_pkg_valid
  by (auto simp: scoped_pkg_def npm_package_def)

text \<open>
  Claim C7. For an npm package whose name does not start with \<^verbatim>\<open>@\<close>, \<^verbatim>\<open>ValidatePackage\<close>
  returns the \<^verbatim>\<open>ValidationError\<close> of the npm validator, and in every run of
  \<^verbatim>\<open>processConcurrently\<close> the only event of the package is the report, with status
  \<^verbatim>\<open>Failed\<close> and the text of that error: no download and no upload of any version.
\<close>

theorem npm_unscoped_fails:
  assumes "PkgType pkg = ''npm''" and "\<forall>rest. PkgName pkg \<noteq> CHR ''@'' # rest"
    and "i < length packages" and "packages ! i = pkg"
  shows "ValidatePackage pkg
           = Some (ValidationError (PkgName pkg) ''npm''
                     (''npm package name must start with '' @ [CHR 0x27] @ ''@'' @ [CHR 0x27]
                        @ '' for scoped packages''))
         \<and> own_events i (processConcurrently env s sched vsched packages)
           = [EvSend \<lparr>PackageName = PkgName pkg, PackageType = ''npm'', Status = ''Failed'',
                ErrorMessage = ''validation error for npm package '' @ [CHR 0x27] @ PkgName pkg
                   @ [CHR 0x27] @ '': npm package name must start with '' @ [CHR 0x27] @ ''@''
                   @ [CHR 0x27] @ '' for scoped packages'',
                VersionsCount = int (length (Versions pkg)), TotalSize = 0\<rparr>]"
proof -
  have v: "ValidatePackage pkg
           = Some (ValidationError (PkgName pkg) ''npm''
                     (''npm package name must start with '' @ [CHR 0x27] @ ''@'' @ [CHR 0x27]
                        @ '' for scoped packages''))"
    using assms(1,2)
    by (simp add: ValidatePackage_def GetValidator_def PackageTypeContainer_def
          PackageTypeNpm_def HasPrefix_at)
  show ?thesis
    using assms(1,3,4)
    by (simp add: v processConcurrently_own worker_invalid [OF v] failed_report_def)
qed

text \<open>
  The package \<^verbatim>\<open>lodash\<close>.
\<close>

theorem npm_unscoped_fails_witness:
  "PkgType lodash_pkg = ''npm'' \<and> PkgName lodash_pkg = ''lodash''
   \<and> processConcurrently working_env NewPackageSync [] (\<lambda>_. []) [lodash_pkg]
     = [(0, EvSend \<lparr>PackageName = ''lodash'', PackageType = ''npm'', Status = ''Failed'',
            ErrorMessage = ''validation error for npm package 'lodash': npm package name must start with '@' for scoped packages'',
            VersionsCount = 1, TotalSize = 0\<rparr>)]"
proof -
  have a: "PkgType lodash_pkg = ''npm''" "\<forall>rest. PkgName lodash_pkg \<noteq> CHR ''@'' # rest"
    "(0::nat) < length [lodash_pkg]" "[lodash_pkg] ! 0 = lodash_pkg"
    by (simp_all add: concrete_defs)
  from npm_unscoped_fails [OF a, of working_env NewPackageSync "[]" "\<lambda>_. []"]
  have "worker working_env NewPackageSync [] lodash_pkg
          = [EvSend \<lparr>PackageName = ''lodash'', PackageType = ''npm'', Status = ''Failed'',
            ErrorMessage = ''validation error for npm package 'lodash': npm package name must start with '@' for scoped packages'',
            VersionsCount = 1, TotalSize = 0\<rparr>]"
    by (simp add: processConcurrently_own) (simp add: concrete_defs)
  then show ?thesis
    by (simp add: processConcurrently_def completion_order.simps spawns_next_def
          maxConcurrent_def sched_head_def remove_nth_def)
       (simp add: concrete_defs)
qed

section \<open>Properties of the retry loops\<close>

lemma duration_mul_exact:
  assumes "- (2 ^ 63) \<le> a * b" and "a * b < 2 ^ 63"
  shows "duration_mul a b = a * b"
proof -
  have "sint (word_of_int (a * b) :: 64 word) = signed_take_bit (LENGTH(64) - 1) (a * b)"
    by (rule sint_sbintrunc')
  also have "\<dots> = a * b"
    using assms by (intro signed_take_bit_int_eq_self) simp_all
  finally show ?thesis by (simp only: duration_mul_def)
qed

lemma nth_state_Suc: "nth_state fn (snd (fn w)) k = nth_state fn w (Suc k)"
  using funpow_swap1 [of "\<lambda>w. snd (fn w)" k w] by (simp add: nth_state_def)

lemma backoff_events_Suc:
  "backoff_events delay a (Suc n)
     = [UpAttempt a, UpWait (duration_mul delay (a + 1))] @ backoff_events delay (a + 1) n"
  unfolding backoff_events_def
  by (simp add: upt_conv_Cons map_Suc_upt [symmetric] comp_def ac_simps del: upt_Suc)

lemma retry_loop_exhaust:
  "0 \<le> a \<Longrightarrow> nat (maxRetries m - a) = n \<Longrightarrow> a \<le> maxRetries m \<Longrightarrow>
   (\<forall>j<n. fst (fn (nth_state fn w j)) = Some (e (nat a + j)) \<and> ctx (nat a + j) = None) \<Longrightarrow>
   retry_loop m ctx fn a lastErr tr w =
     ((Some (''upload failed after '' @ show_int (maxRetries m) @ '' attempts: ''
               @ show_error (if n = 0 then lastErr else Some (e (nat a + n - 1)))),
       tr @ backoff_events (retryDelay m) a n),
      nth_state fn w n)"
proof (induction n arbitrary: a w lastErr tr)
  case 0
  then show ?case
    by (subst retry_loop.simps) (simp add: nth_state_def backoff_events_def)
next
  case (Suc n)
  from Suc.prems have lt: "a < maxRetries m" by linarith
  from Suc.prems(4) have h0: "fst (fn w) = Some (e (nat a))" "ctx (nat a) = None"
    by (auto simp: nth_state_def dest: spec [of _ 0])
  have na: "nat (a + 1) = Suc (nat a)" using Suc.prems(1) by simp
  have rest: "\<forall>j<n. fst (fn (nth_state fn (snd (fn w)) j)) = Some (e (nat (a + 1) + j))
                  \<and> ctx (nat (a + 1) + j) = None"
  proof (intro allI impI)
    fix j assume "j < n"
    then have "Suc j < Suc n" by simp
    with Suc.prems(4) have "fst (fn (nth_state fn w (Suc j))) = Some (e (nat a + Suc j))
                             \<and> ctx (nat a + Suc j) = None" by blast
    then show "fst (fn (nth_state fn (snd (fn w)) j)) = Some (e (nat (a + 1) + j))
                  \<and> ctx (nat (a + 1) + j) = None"
      by (simp add: nth_state_Suc na)
  qed
  have n': "nat (maxRetries m - (a + 1)) = n" using Suc.prems(2) by linarith
  have a': "0 \<le> a + 1" "a + 1 \<le> maxRetries m" using Suc.prems(1) lt by simp_all
  note IH = Suc.IH [OF a'(1) n' a'(2) rest, of "Some (e (nat a))"
      "tr @ [UpAttempt a, UpWait (duration_mul (retryDelay m) (a + 1))]"]
  obtain w' where fw: "fn w = (Some (e (nat a)), w')"
    using h0(1) by (cases "fn w") auto
  have unfold: "retry_loop m ctx fn a lastErr tr w =
                  retry_loop m ctx fn (a + 1) (Some (e (nat a)))
                    (tr @ [UpAttempt a, UpWait (duration_mul (retryDelay m) (a + 1))]) w'"
    by (subst retry_loop.simps) (simp add: lt fw h0(2))
  have w': "snd (fn w) = w'" by (simp add: fw)
  show ?case
    unfolding unfold using IH
    by (simp add: w' backoff_events_Suc na nth_state_Suc [symmetric])
qed

lemma download_events_Suc:
  "download_events p v delay a (Suc n)
     = [EvDownload p v, EvSleep (duration_mul delay (a + 1))] @ download_events p v delay (a + 1) n"
  unfolding download_events_def
  by (simp add: upt_conv_Cons map_Suc_upt [symmetric] comp_def ac_simps del: upt_Suc)

lemma download_loop_exhaust:
  "0 \<le> a \<Longrightarrow> nat (sync_maxRetries env - a) = n \<Longrightarrow> a \<le> sync_maxRetries env \<Longrightarrow>
   (\<forall>j<n. snd (DownloadPackageVersion env (SOURCE_ORGANIZATION env) p v (nat a + j))
             = Some (e (nat a + j))) \<Longrightarrow>
   snd (download_loop env p v a data err tr) =
     (if n = 0 then err else Some (e (nat a + n - 1)),
      tr @ download_events p v (sync_retryDelay env) a n)"
proof (induction n arbitrary: a data err tr)
  case 0
  then show ?case
    by (subst download_loop.simps) (simp add: download_events_def)
next
  case (Suc n)
  from Suc.prems have lt: "a < sync_maxRetries env" by linarith
  from Suc.prems(4)
  have h0: "snd (DownloadPackageVersion env (SOURCE_ORGANIZATION env) p v (nat a)) = Some (e (nat a))"
    by (auto dest: spec [of _ 0])
  have na: "nat (a + 1) = Suc (nat a)" using Suc.prems(1) by simp
  have rest: "\<forall>j<n. snd (DownloadPackageVersion env (SOURCE_ORGANIZATION env) p v (nat (a + 1) + j))
                      = Some (e (nat (a + 1) + j))"
    using Suc.prems(4) by (auto simp: na)
  have n': "nat (sync_maxRetries env - (a + 1)) = n" using Suc.prems(2) by linarith
  have a': "0 \<le> a + 1" "a + 1 \<le> sync_maxRetries env" using Suc.prems(1) lt by simp_all
  note IH = Suc.IH [OF a'(1) n' a'(2) rest]
  show ?case
    by (subst download_loop.simps)
       (simp add: lt h0 Let_def IH download_events_Suc na)
qed

text \<open>
  Claim C6, as the code has it, for both retry loops and a configured count \<open>N \<ge> 1\<close>.
  When each of the \<open>N\<close> download attempts of a version fails, the version's goroutine
  makes exactly \<open>N\<close> attempts, sleeps \<^verbatim>\<open>retryDelay * k\<close> after the \<open>k\<close>-th failure (also after the
  last), and reports an error that ends with the text of the last failure. When \<open>fn\<close>
  fails on each of the \<open>N\<close> attempts of \<^verbatim>\<open>retryableUpload\<close> and the context is not done during
  any of the waits, exactly \<open>N\<close> attempts are made, the wait after the \<open>k\<close>-th failure is
  \<^verbatim>\<open>retryDelay * k\<close>, and the error returned names \<open>N\<close> and ends with the text of the last
  failure. The product is an \<^verbatim>\<open>int64\<close> product; it is the exact product whenever that is
  not negative and below \<open>2^63\<close>.
\<close>

theorem retry_exhaustion:
  "(1 \<le> sync_maxRetries env
      \<and> (\<forall>k<nat (sync_maxRetries env).
            snd (DownloadPackageVersion env (SOURCE_ORGANIZATION env) (PkgName pkg) (VersionName v) k)
              = Some (derr k))
    \<longrightarrow> version_task env pkg t v
          = (download_events (PkgName pkg) (VersionName v) (sync_retryDelay env) 0
               (nat (sync_maxRetries env)),
             Some (''failed to download version '' @ VersionName v @ '': ''
                     @ derr (nat (sync_maxRetries env) - 1))))
   \<and> (1 \<le> maxRetries m
      \<and> (\<forall>k<nat (maxRetries m). fst (fn (nth_state fn w k)) = Some (uerr k) \<and> ctx k = None)
    \<longrightarrow> retryableUpload m ctx fn w
          = ((Some (''upload failed after '' @ show_int (maxRetries m) @ '' attempts: ''
                      @ uerr (nat (maxRetries m) - 1)),
              backoff_events (retryDelay m) 0 (nat (maxRetries m))),
             nth_state fn w (nat (maxRetries m))))
   \<and> (0 \<le> delay \<and> 0 \<le> k \<and> delay * (k + 1) < 2 ^ 63
    \<longrightarrow> duration_mul delay (k + 1) = delay * (k + 1))"
proof (intro conjI impI)
  assume h: "1 \<le> sync_maxRetries env
      \<and> (\<forall>k<nat (sync_maxRetries env).
            snd (DownloadPackageVersion env (SOURCE_ORGANIZATION env) (PkgName pkg) (VersionName v) k)
              = Some (derr k))"
  then have n: "nat (sync_maxRetries env) \<noteq> 0" by simp
  from h download_loop_exhaust [of 0 env "nat (sync_maxRetries env)" "PkgName pkg" "VersionName v"
      derr "[]" None "[]"]
  have "snd (download_loop env (PkgName pkg) (VersionName v) 0 [] None []) =
     (Some (derr (nat (sync_maxRetries env) - 1)),
      download_events (PkgName pkg) (VersionName v) (sync_retryDelay env) 0
        (nat (sync_maxRetries env)))"
    using n by simp
  then show "version_task env pkg t v
          = (download_events (PkgName pkg) (VersionName v) (sync_retryDelay env) 0
               (nat (sync_maxRetries env)),
             Some (''failed to download version '' @ VersionName v @ '': ''
                     @ derr (nat (sync_maxRetries env) - 1)))"
    by (auto simp: version_task_def split: prod.splits)
next
  assume h: "1 \<le> maxRetries m
      \<and> (\<forall>k<nat (maxRetries m). fst (fn (nth_state fn w k)) = Some (uerr k) \<and> ctx k = None)"
  then have n: "nat (maxRetries m) \<noteq> 0" by simp
  from h retry_loop_exhaust [of 0 m "nat (maxRetries m)" fn w uerr ctx None "[]"] n
  show "retryableUpload m ctx fn w
          = ((Some (''upload failed after '' @ show_int (maxRetries m) @ '' attempts: ''
                      @ uerr (nat (maxRetries m) - 1)),
              backoff_events (retryDelay m) 0 (nat (maxRetries m))),
             nth_state fn w (nat (maxRetries m)))"
    by (simp add: retryableUpload_def show_error_def)
next
  assume "0 \<le> delay \<and> 0 \<le> k \<and> delay * (k + 1) < 2 ^ 63"
  then show "duration_mul delay (k + 1) = delay * (k + 1)"
    by (intro duration_mul_exact) (auto intro: order_trans [of _ 0])
qed

lemma three_waits:
  "duration_mul 5000000000 1 = 5000000000" "duration_mul 5000000000 2 = 10000000000"
  "duration_mul 5000000000 3 = 15000000000"
  by (simp_all add: duration_mul_exact)

text \<open>
  Three attempts and a delay of five seconds, the values of \<^verbatim>\<open>NewUploadManager\<close>.
\<close>

theorem retry_exhaustion_witness:
  "version_task failing_env scoped_pkg ''@acme/ui'' version_ok
     = ([EvDownload ''@acme/ui'' ''1.0.0'', EvSleep 5000000000,
         EvDownload ''@acme/ui'' ''1.0.0'', EvSleep 10000000000,
         EvDownload ''@acme/ui'' ''1.0.0'', EvSleep 15000000000],
        Some ''failed to download version 1.0.0: connection reset'')
   \<and> retryableUpload NewUploadManager (\<lambda>k. None) always_503 ()
     = ((Some ''upload failed after 3 attempts: 503 Service Unavailable'',
         [UpAttempt 0, UpWait 5000000000, UpAttempt 1, UpWait 10000000000,
          UpAttempt 2, UpWait 15000000000]), ())
   \<and> duration_mul 5000000000 3 = 5000000000 * 3"
proof -
  have d: "1 \<le> sync_maxRetries failing_env
      \<and> (\<forall>k<nat (sync_maxRetries failing_env).
            snd (DownloadPackageVersion failing_env (SOURCE_ORGANIZATION failing_env)
                   (PkgName scoped_pkg) (VersionName version_ok) k)
              = Some ''connection reset'')"
    by (simp add: failing_env_def)
  have u: "1 \<le> maxRetries NewUploadManager
      \<and> (\<forall>k<nat (maxRetries NewUploadManager).
            fst (always_503 (nth_state always_503 () k)) = Some ''503 Service Unavailable''
            \<and> None = (None :: string option))"
    by (simp add: NewUploadManager_def always_503_def)
  have k: "(0::int) \<le> 5000000000 \<and> (0::int) \<le> 2 \<and> (5000000000::int) * (2 + 1) < 2 ^ 63"
    by simp
  have n3: "[0..<3] = [0, 1, 2]" by (simp add: upt_rec)
  from retry_exhaustion [of failing_env scoped_pkg version_ok "\<lambda>k. ''connection reset''"
         "''@acme/ui''" NewUploadManager always_503 "()" "\<lambda>k. ''503 Service Unavailable''"
         "\<lambda>k. None" 5000000000 2]
       d u k
  show ?thesis
    by (simp add: download_events_def backoff_events_def three_waits n3 failing_env_def
          NewUploadManager_def Second_def show_int_def digits.simps
          scoped_pkg_def npm_package_def version_ok_def)
qed

text \<open>
  Where the claim as worded fails: \<open>fn\<close> fails on all three attempts, the context is done
  during the wait that follows the third, and the error returned is the context's; it
  does not carry the last failure of \<open>fn\<close>. And with a count of zero the download loop
  makes no attempt and leaves no error: the goroutine goes on to upload the empty data.
\<close>

theorem retry_cancelled_counterexample:
  "retryableUpload NewUploadManager cancel_in_last_wait always_503 ()
     = ((Some ''context canceled'',
         [UpAttempt 0, UpWait 5000000000, UpAttempt 1, UpWait 10000000000, UpAttempt 2]), ())
   \<and> version_task no_retry_env scoped_pkg ''@acme/ui'' version_ok
     = ([EvUpload ''@acme/ui'' ''1.0.0''], None)"
  by (simp add: retryableUpload_def retry_loop.simps NewUploadManager_def Second_def
        always_503_def cancel_in_last_wait_def three_waits version_task_def
        download_loop.simps no_retry_env_def failing_env_def version_ok_def)

section \<open>Properties of the catalog fetch\<close>

lemma fetch_pages_ok:
  "ps \<noteq> [] \<Longrightarrow> list_all HasNextPage (butlast ps) \<Longrightarrow> \<not> HasNextPage (last ps) \<Longrightarrow>
   replay client vars w (map Inr ps) = Some w' \<Longrightarrow>
   fetch_pages client vars acc w
     = Some (Inr (acc @ concat (map (\<lambda>query. map node_Package (Nodes query)) ps)), w')"
proof (induction ps arbitrary: vars acc w)
  case Nil
  then show ?case by simp
next
  case (Cons p ps)
  from Cons.prems(4) obtain w1 where c: "client vars w = Some (Inr p, w1)"
    and r: "replay client (vars\<lparr>after := Some (EndCursor p)\<rparr>) w1 (map Inr ps) = Some w'"
    by (auto split: option.splits if_splits)
  show ?case
  proof (cases "ps = []")
    case True
    with Cons.prems(3) r c show ?thesis
      by (subst fetch_pages.simps) simp
  next
    case False
    with Cons.prems have hn: "HasNextPage p" and rest: "list_all HasNextPage (butlast ps)"
      "\<not> HasNextPage (last ps)" by simp_all
    from Cons.IH [OF False rest r] c hn show ?thesis
      by (subst fetch_pages.simps) simp
  qed
qed

lemma fetch_pages_err:
  "list_all HasNextPage ps \<Longrightarrow>
   replay client vars w (map Inr ps @ [Inl e]) = Some w' \<Longrightarrow>
   fetch_pages client vars acc w = Some (Inl (''failed to query packages: '' @ e), w')"
proof (induction ps arbitrary: vars acc w)
  case Nil
  then show ?case
    by (subst fetch_pages.simps) (auto split: option.splits if_splits)
next
  case (Cons p ps)
  from Cons.prems(2) obtain w1 where c: "client vars w = Some (Inr p, w1)"
    and r: "replay client (vars\<lparr>after := Some (EndCursor p)\<rparr>) w1 (map Inr ps @ [Inl e]) = Some w'"
    by (auto split: option.splits if_splits)
  from Cons.prems(1) have hn: "HasNextPage p" and rest: "list_all HasNextPage ps" by simp_all
  from Cons.IH [OF rest r] c hn show ?case
    by (subst fetch_pages.simps) simp
qed

lemma client_Query_events:
  "client_Query vars w = Some (res, w') \<Longrightarrow>
     now w' = now w \<and> events w' = events w @ [EvPageQuery vars (now w)]"
  by (auto simp: client_Query_def split: list.splits)

lemma Query_events:
  "Query vars w = Some (res, w') \<Longrightarrow>
     now w \<le> now w' \<and>
     (\<exists>new. events w' = events w @ new \<and>
        (\<forall>rateLimit. EvProbe (Inr rateLimit) \<in> set new \<and> Remaining rateLimit \<le> 0
                       \<longrightarrow> ResetAt rateLimit \<le> now w') \<and>
        (\<forall>v t. EvPageQuery v t \<in> set new \<longrightarrow> t = now w'))"
proof (induction vars w rule: Query.induct)
  case (1 vars w)
  from "1.prems" obtain r rs where pr: "probes w = r # rs"
    by (subst (asm) Query.simps) (auto split: list.splits)
  define w1 where "w1 = w\<lparr>probes := rs, events := events w @ [EvProbe r]\<rparr>"
  show ?case
  proof (cases r)
    case (Inl err)
    with "1.prems" pr show ?thesis
      by (subst (asm) Query.simps) (auto simp: Let_def)
  next
    case (Inr rateLimit)
    show ?thesis
    proof (cases "Remaining rateLimit > 0")
      case True
      with "1.prems" pr Inr have "client_Query vars w1 = Some (res, w')"
        by (subst (asm) Query.simps) (simp add: Let_def w1_def)
      from client_Query_events [OF this] True Inr show ?thesis
        by (auto simp: w1_def)
    next
      case False
      define w2 where "w2 = Sleep_Until (ResetAt rateLimit) w1"
      from False "1.prems" pr Inr have q: "Query vars w2 = Some (res, w')"
        by (subst (asm) Query.simps) (simp add: Let_def w1_def w2_def)
      from "1.IH" [OF pr w1_def Inr False] q
      have le: "now w2 \<le> now w'" and
        ex: "\<exists>new. events w' = events w2 @ new \<and>
        (\<forall>rateLimit. EvProbe (Inr rateLimit) \<in> set new \<and> Remaining rateLimit \<le> 0
                       \<longrightarrow> ResetAt rateLimit \<le> now w') \<and>
        (\<forall>v t. EvPageQuery v t \<in> set new \<longrightarrow> t = now w')"
        unfolding w2_def by blast+
      from ex obtain new where new: "events w' = events w2 @ new"
        "\<forall>rateLimit. EvProbe (Inr rateLimit) \<in> set new \<and> Remaining rateLimit \<le> 0
                       \<longrightarrow> ResetAt rateLimit \<le> now w'"
        "\<forall>v t. EvPageQuery v t \<in> set new \<longrightarrow> t = now w'" by blast
      have n2: "now w2 = max (now w) (ResetAt rateLimit)"
        and e2: "events w2 = events w @ [EvProbe r, EvSleepUntil (ResetAt rateLimit)]"
        by (simp_all add: w2_def w1_def Sleep_Until_def)
      have "events w' = events w @ ([EvProbe r, EvSleepUntil (ResetAt rateLimit)] @ new)"
        using new(1) e2 by simp
      moreover have "\<forall>rl. EvProbe (Inr rl) \<in> set ([EvProbe r, EvSleepUntil (ResetAt rateLimit)] @ new)
                          \<and> Remaining rl \<le> 0 \<longrightarrow> ResetAt rl \<le> now w'"
        using new(2) le n2 Inr by auto
      moreover have "\<forall>v t. EvPageQuery v t \<in> set ([EvProbe r, EvSleepUntil (ResetAt rateLimit)] @ new)
                          \<longrightarrow> t = now w'"
        using new(3) by auto
      moreover have "now w \<le> now w'" using le n2 by simp
      ultimately show ?thesis by blast
    qed
  qed
qed

text \<open>
  Claim C4. When the remote side answers the successive requests of
  \<^verbatim>\<open>GetOrganizationPackages\<close> (each carrying the cursor of the page before) with the pages
  \<open>ps\<close>, of which only the last has \<^verbatim>\<open>hasNextPage = false\<close>, the function returns the packages
  of the nodes of all pages, in page order, and no error. When it answers with pages that
  all announce a next page and then with an error, the function returns that error,
  wrapped, and no package: what the earlier pages gave is dropped.
\<close>

theorem fetch_concatenates_pages:
  "(ps \<noteq> [] \<and> list_all HasNextPage (butlast ps) \<and> \<not> HasNextPage (last ps)
      \<and> replay Query (first_vars org ptype) w (map Inr ps) = Some w'
    \<longrightarrow> GetOrganizationPackages org ptype w
          = Some (Inr (concat (map (\<lambda>query. map node_Package (Nodes query)) ps)), w'))
   \<and> (list_all HasNextPage ps
      \<and> replay Query (first_vars org ptype) w (map Inr ps @ [Inl err]) = Some w'
    \<longrightarrow> GetOrganizationPackages org ptype w
          = Some (Inl (''failed to query packages: '' @ err), w'))"
  using fetch_pages_ok [of ps Query "first_vars org ptype" w w' "[]"]
        fetch_pages_err [of ps Query "first_vars org ptype" w err w' "[]"]
  by (simp add: GetOrganizationPackages_def first_vars_def)

text \<open>
  Claim C5. In a call of \<^verbatim>\<open>RateLimitAwareGraphQLClient.Query\<close>: when the probe reports a
  remaining quota above zero, the page query is issued at once, at the time of the call
  and with no sleep between probe and query. And in every call that returns, a page query
  is issued at a time that is not before the reset time of any probe of that call which
  reported no remaining quota.
\<close>

theorem rate_limit_compliance:
  "(probes w = Inr rateLimit # rest \<and> Remaining rateLimit > 0
    \<longrightarrow> Query vars w
          = client_Query vars (w\<lparr>probes := rest, events := events w @ [EvProbe (Inr rateLimit)]\<rparr>)
        \<and> (\<forall>res w'. Query vars w = Some (res, w')
             \<longrightarrow> now w' = now w
               \<and> events w' = events w @ [EvProbe (Inr rateLimit), EvPageQuery vars (now w)]))
   \<and> (Query vars w = Some (res, w')
    \<longrightarrow> (\<exists>new. events w' = events w @ new
           \<and> (\<forall>rl v t. EvProbe (Inr rl) \<in> set new \<and> Remaining rl \<le> 0
                         \<and> EvPageQuery v t \<in> set new
                \<longrightarrow> ResetAt rl \<le> t)))"
proof (intro conjI impI allI)
  assume h: "probes w = Inr rateLimit # rest \<and> Remaining rateLimit > 0"
  then show q: "Query vars w
          = client_Query vars (w\<lparr>probes := rest, events := events w @ [EvProbe (Inr rateLimit)]\<rparr>)"
    by (subst Query.simps) (simp add: Let_def)
  fix res w' assume "Query vars w = Some (res, w')"
  with q client_Query_events [of vars "w\<lparr>probes := rest, events := events w @ [EvProbe (Inr rateLimit)]\<rparr>" res w']
  show "now w' = now w" "events w' = events w @ [EvProbe (Inr rateLimit), EvPageQuery vars (now w)]"
    by simp_all
next
  assume "Query vars w = Some (res, w')"
  from Query_events [OF this] show "\<exists>new. events w' = events w @ new
           \<and> (\<forall>rl v t. EvProbe (Inr rl) \<in> set new \<and> Remaining rl \<le> 0
                         \<and> EvPageQuery v t \<in> set new
                \<longrightarrow> ResetAt rl \<le> t)"
    by blast
qed

lemmas world_defs = node_ui_def node_cli_def page_one_def page_two_def throttled_world_def
  broken_world_def first_vars_def

lemma replay_throttled:
  "replay Query (first_vars ''acme'' ''npm'') throttled_world (map Inr [page_one, page_two])
     = Some throttled_after"
  by (simp add: Query.simps client_Query_def Sleep_Until_def Let_def throttled_world_def
        throttled_after_def first_vars_def page_one_def page_two_def)

text \<open>
  Two pages, the first after a rate-limit wait; and a page followed by a \<^verbatim>\<open>502\<close>.
\<close>

theorem fetch_concatenates_pages_witness:
  "GetOrganizationPackages ''acme'' ''npm'' throttled_world
     = Some (Inr [node_Package node_ui, node_Package node_cli], throttled_after)
   \<and> (\<exists>w'. GetOrganizationPackages ''acme'' ''npm'' broken_world
              = Some (Inl ''failed to query packages: 502 Bad Gateway'', w'))"
proof -
  have a: "[page_one, page_two] \<noteq> [] \<and> list_all HasNextPage (butlast [page_one, page_two])
      \<and> \<not> HasNextPage (last [page_one, page_two])"
    by (simp add: page_one_def page_two_def)
  have b: "list_all HasNextPage [page_one]" by (simp add: page_one_def)
  have "\<exists>w'. replay Query (first_vars ''acme'' ''npm'') broken_world
                 (map Inr [page_one] @ [Inl ''502 Bad Gateway'']) = Some w'"
    by (simp add: Query.simps client_Query_def Let_def broken_world_def first_vars_def
          page_one_def)
  then obtain w' where c: "replay Query (first_vars ''acme'' ''npm'') broken_world
                 (map Inr [page_one] @ [Inl ''502 Bad Gateway'']) = Some w'" ..
  from fetch_concatenates_pages [of "[page_one, page_two]" "''acme''" "''npm''" throttled_world
         throttled_after]
       fetch_concatenates_pages [of "[page_one]" "''acme''" "''npm''" broken_world w' "''502 Bad Gateway''"]
       a b c replay_throttled
  show ?thesis
    by (simp add: page_one_def page_two_def)
qed

lemma Query_throttled:
  "Query (first_vars ''acme'' ''npm'') throttled_world = Some (Inr page_one, after_first_query)"
  by (simp add: Query.simps client_Query_def Sleep_Until_def Let_def throttled_world_def
        after_first_query_def first_vars_def)

text \<open>
  A first call that finds the quota at zero and sleeps until the reset time 5 before it
  queries, and a second call that queries at once.
\<close>

theorem rate_limit_compliance_witness:
  "Query (first_vars ''acme'' ''npm'') throttled_world = Some (Inr page_one, after_first_query)
   \<and> events after_first_query
       = [EvProbe (Inr \<lparr>Remaining = 0, ResetAt = 5\<rparr>), EvSleepUntil 5,
          EvProbe (Inr \<lparr>Remaining = 4999, ResetAt = 3600\<rparr>),
          EvPageQuery (first_vars ''acme'' ''npm'') 5]
   \<and> probes after_first_query = [Inr \<lparr>Remaining = 4998, ResetAt = 3600\<rparr>]
   \<and> Query ((first_vars ''acme'' ''npm'')\<lparr>after := Some ''cursor-1''\<rparr>) after_first_query
       = client_Query ((first_vars ''acme'' ''npm'')\<lparr>after := Some ''cursor-1''\<rparr>)
           (after_first_query\<lparr>probes := [],
              events := events after_first_query
                          @ [EvProbe (Inr \<lparr>Remaining = 4998, ResetAt = 3600\<rparr>)]\<rparr>)"
proof -
  have p: "probes after_first_query = Inr \<lparr>Remaining = 4998, ResetAt = 3600\<rparr> # []
            \<and> Remaining \<lparr>Remaining = 4998, ResetAt = 3600\<rparr> > 0"
    by (simp add: after_first_query_def)
  from rate_limit_compliance [of after_first_query "\<lparr>Remaining = 4998, ResetAt = 3600\<rparr>" "[]"
         "(first_vars ''acme'' ''npm'')\<lparr>after := Some ''cursor-1''\<rparr>"]
       rate_limit_compliance [of throttled_world _ _ "first_vars ''acme'' ''npm''"
         "Inr page_one" after_first_query]
       p Query_throttled
  show ?thesis
    by (simp add: after_first_query_def)
qed

section \<open>Properties of the container uploads\<close>

lemma HasPrefix_append: "HasPrefix (p @ s) p"
  by (simp add: HasPrefix_def)

lemma registry_layer:
  assumes "fs file = Some content"
  shows "uploadContainerLayer (registry_env fs h) baseURL file r =
     (if List.member (present r) (blob_url baseURL (file_digest fs h file))
      then ((Inr (file_digest fs h file),
             [head_request (blob_url baseURL (file_digest fs h file))]), r)
      else ((Inr (file_digest fs h file),
             [head_request (blob_url baseURL (file_digest fs h file)),
              post_request (baseURL @ ''/blobs/uploads/''),
              layer_put_request (registry_env fs h)
                (layer_put_url baseURL (file_digest fs h file)) file (int (length content))]),
            r\<lparr>present := blob_url baseURL (file_digest fs h file) # present r,
              sessions := (baseURL @ ''/blobs/uploads/session?id=1'', baseURL) # sessions r\<rparr>))"
proof -
  define d where "d = file_digest fs h file"
  have d: "''sha256:'' @ h content = d" using assms by (simp add: d_def file_digest_def)
  have pre: "HasPrefix (baseURL @ ''/blobs/uploads/session?id=1&digest='' @ d)
                ((baseURL @ ''/blobs/uploads/session?id=1'') @ ''&digest='')"
    using HasPrefix_append [of "(baseURL @ ''/blobs/uploads/session?id=1'') @ ''&digest=''" d]
    by simp
  have drp: "drop (length ((baseURL @ ''/blobs/uploads/session?id=1'') @ ''&digest=''))
               (baseURL @ ''/blobs/uploads/session?id=1&digest='' @ d) = d"
    by simp
  have tk: "take (length (baseURL @ ''/blobs/uploads/'') - length ''/blobs/uploads/'')
              (baseURL @ ''/blobs/uploads/'') = baseURL"
    by simp
  show ?thesis
    unfolding d_def [symmetric]
    using assms d pre drp tk
    apply (simp add: uploadContainerLayer_def checkExists_def Let_def registry_env_def
        registry_Do_def registry_post_def head_request_def layer_put_request_def
        ok_response_def blob_url_def layer_put_url_def)
    done
qed

lemma layer_uploads_append:
  "layer_uploads b d (xs @ ys) = layer_uploads b d xs + layer_uploads b d ys"
  by (simp add: layer_uploads_def)

lemma manifest_uploads_append:
  "manifest_uploads u (xs @ ys) = manifest_uploads u xs + manifest_uploads u ys"
  by (simp add: manifest_uploads_def)

lemma layer_uploads_Cons:
  "layer_uploads b d (q # qs) = (if is_layer_put b d q then 1 else 0) + layer_uploads b d qs"
  by (simp add: layer_uploads_def)

lemma manifest_uploads_Cons:
  "manifest_uploads u (q # qs) = (if is_manifest_put u q then 1 else 0) + manifest_uploads u qs"
  by (simp add: manifest_uploads_def)

lemma uploads_Nil: "layer_uploads b d [] = 0" "manifest_uploads u [] = 0"
  by (simp_all add: layer_uploads_def manifest_uploads_def)

lemma is_put_simps:
  "is_layer_put b d (head_request u) = False"
  "is_layer_put b d (post_request u) = False"
  "is_layer_put b d (layer_put_request a (layer_put_url b d') file sz) = (d = d')"
  "is_layer_put b d (manifest_put_request a u data) = False"
  "is_manifest_put url (head_request u) = False"
  "is_manifest_put url (post_request u) = False"
  "is_manifest_put url (layer_put_request a pu file sz) = False"
  "is_manifest_put url (manifest_put_request a url' data) = (url = url')"
  by (auto simp: is_layer_put_def is_manifest_put_def head_request_def post_request_def
        layer_put_request_def manifest_put_request_def layer_put_url_def)

lemmas count_simps = layer_uploads_append manifest_uploads_append layer_uploads_Cons
  manifest_uploads_Cons uploads_Nil is_put_simps

lemma registry_run_layers:
  assumes "\<forall>f\<in>set files. fs f \<noteq> None"
  shows "\<exists>sent' r'. run_layers (registry_env fs h) b files res errs sent r
             = ((res @ map (file_digest fs h) files, errs, sent @ sent'), r')
     \<and> set (present r') = set (present r) \<union> blob_url b ` file_digest fs h ` set files
     \<and> (\<forall>d. layer_uploads b d sent'
               = (if d \<in> file_digest fs h ` set files \<and> blob_url b d \<notin> set (present r)
                  then 1 else 0))
     \<and> (\<forall>u. manifest_uploads u sent' = 0)"
  using assms
proof (induction files arbitrary: res errs sent r)
  case Nil
  then show ?case by (simp add: count_simps)
next
  case (Cons f files)
  then obtain content where c: "fs f = Some content" by auto
  define df where "df = file_digest fs h f"
  have rest: "\<forall>f\<in>set files. fs f \<noteq> None" using Cons.prems by simp
  have inj: "blob_url b d = blob_url b d' \<longleftrightarrow> d = d'" for d d'
    by (simp add: blob_url_def)
  show ?case
  proof (cases "List.member (present r) (blob_url b df)")
    case True
    from Cons.IH [OF rest, of "res @ [df]" errs "sent @ [head_request (blob_url b df)]" r]
    obtain sent' r' where ih:
      "run_layers (registry_env fs h) b files (res @ [df]) errs
         (sent @ [head_request (blob_url b df)]) r
         = (((res @ [df]) @ map (file_digest fs h) files, errs,
             (sent @ [head_request (blob_url b df)]) @ sent'), r')"
      "set (present r') = set (present r) \<union> blob_url b ` file_digest fs h ` set files"
      "\<forall>d. layer_uploads b d sent'
               = (if d \<in> file_digest fs h ` set files \<and> blob_url b d \<notin> set (present r)
                  then 1 else 0)"
      "\<forall>u. manifest_uploads u sent' = 0"
      by blast
    have mem: "blob_url b df \<in> set (present r)" using True by simp
    have "run_layers (registry_env fs h) b (f # files) res errs sent r
            = ((res @ map (file_digest fs h) (f # files), errs,
                sent @ ([head_request (blob_url b df)] @ sent')), r')"
      using True ih(1) by (simp add: registry_layer [of fs f content, OF c] df_def)
    moreover have "set (present r')
            = set (present r) \<union> blob_url b ` file_digest fs h ` set (f # files)"
      using ih(2) mem by (auto simp: df_def)
    moreover have "\<forall>d. layer_uploads b d ([head_request (blob_url b df)] @ sent')
               = (if d \<in> file_digest fs h ` set (f # files) \<and> blob_url b d \<notin> set (present r)
                  then 1 else 0)"
      using ih(3) mem
      by (auto simp: count_simps df_def)
    moreover have "\<forall>u. manifest_uploads u ([head_request (blob_url b df)] @ sent') = 0"
      using ih(4) by (simp add: count_simps)
    ultimately show ?thesis by blast
  next
    case False
    define reqs where "reqs = [head_request (blob_url b df), post_request (b @ ''/blobs/uploads/''),
              layer_put_request (registry_env fs h) (layer_put_url b df) f (int (length content))]"
    define r1 where "r1 = r\<lparr>present := blob_url b df # present r,
              sessions := (b @ ''/blobs/uploads/session?id=1'', b) # sessions r\<rparr>"
    from Cons.IH [OF rest, of "res @ [df]" errs "sent @ reqs" r1]
    obtain sent' r' where ih:
      "run_layers (registry_env fs h) b files (res @ [df]) errs (sent @ reqs) r1
         = (((res @ [df]) @ map (file_digest fs h) files, errs, (sent @ reqs) @ sent'), r')"
      "set (present r') = set (present r1) \<union> blob_url b ` file_digest fs h ` set files"
      "\<forall>d. layer_uploads b d sent'
               = (if d \<in> file_digest fs h ` set files \<and> blob_url b d \<notin> set (present r1)
                  then 1 else 0)"
      "\<forall>u. manifest_uploads u sent' = 0"
      by blast
    have nmem: "blob_url b df \<notin> set (present r)" using False by simp
    have p1: "set (present r1) = insert (blob_url b df) (set (present r))"
      by (simp add: r1_def)
    have "run_layers (registry_env fs h) b (f # files) res errs sent r
            = ((res @ map (file_digest fs h) (f # files), errs, sent @ (reqs @ sent')), r')"
      using False ih(1) by (simp add: registry_layer [of fs f content, OF c] df_def reqs_def r1_def)
    moreover have "set (present r')
            = set (present r) \<union> blob_url b ` file_digest fs h ` set (f # files)"
      using ih(2) p1 by (auto simp: df_def)
    moreover have "\<forall>d. layer_uploads b d (reqs @ sent')
               = (if d \<in> file_digest fs h ` set (f # files) \<and> blob_url b d \<notin> set (present r)
                  then 1 else 0)"
    proof
      fix d
      show "layer_uploads b d (reqs @ sent')
               = (if d \<in> file_digest fs h ` set (f # files) \<and> blob_url b d \<notin> set (present r)
                  then 1 else 0)"
      proof (cases "d = df")
        case True
        then show ?thesis
          using ih(3) nmem p1
          by (simp add: count_simps reqs_def df_def)
      next
        case neq: False
        then have "blob_url b d \<noteq> blob_url b df" by (simp add: inj)
        then show ?thesis
          using ih(3) neq p1
          by (auto simp: count_simps reqs_def df_def)
      qed
    qed
    moreover have "\<forall>u. manifest_uploads u (reqs @ sent') = 0"
      using ih(4) by (simp add: count_simps reqs_def)
    ultimately show ?thesis by blast
  qed
qed

lemma registry_manifest:
  "uploadContainerManifest (registry_env fs h) url manifest r =
     ((None, [manifest_put_request (registry_env fs h) url
                (concat (map layerDigest (Layers manifest)))]),
      r\<lparr>present := url # present r\<rparr>)"
  by (simp add: uploadContainerManifest_def registry_env_def registry_Do_def
        manifest_put_request_def ok_response_def Let_def)

lemma registry_manifest_retry:
  assumes "1 \<le> maxRetries m"
  shows "retryableUpload m ctx (manifest_attempt (registry_env fs h) url manifest) (sent, r) =
     ((None, [UpAttempt 0]),
      (sent @ [manifest_put_request (registry_env fs h) url
                 (concat (map layerDigest (Layers manifest)))],
       r\<lparr>present := url # present r\<rparr>))"
  using assms
  by (simp add: retryableUpload_def retry_loop.simps manifest_attempt_def registry_manifest)

lemma registry_generate:
  "\<exists>manifest. generateContainerManifest (registry_env fs h) layers opts = Inr manifest"
  by (simp add: generateContainerManifest_def registry_env_def)

lemma registry_ContainerUpload:
  assumes "validateContainerUpload opts = None" and "1 \<le> concurrency m" and "1 \<le> maxRetries m"
    and "\<forall>f\<in>set (layer_files opts). fs f \<noteq> None"
  shows "\<exists>sent r'. ContainerUpload m (registry_env fs h) ctx sched opts r
                       = ((Returns None, sent, [UpAttempt 0]), r')
     \<and> set (present r') = set (present r)
           \<union> blob_url (base_url opts) ` file_digest fs h ` set (layer_files opts)
           \<union> {manifest_url opts}
     \<and> (\<forall>d. layer_uploads (base_url opts) d sent
               = (if d \<in> file_digest fs h ` set (layer_files opts)
                     \<and> blob_url (base_url opts) d \<notin> set (present r)
                  then 1 else 0))
     \<and> manifest_uploads (manifest_url opts) sent = 1"
proof -
  define order where
    "order = completion_order (nat (concurrency m)) (layer_files opts) [] sched"
  have pos: "0 < nat (concurrency m)" using assms(2) by simp
  have so: "set order = set (layer_files opts)"
    unfolding order_def by (rule completion_order_set [OF pos])
  then have rd: "\<forall>f\<in>set order. fs f \<noteq> None" using assms(4) by simp
  from registry_run_layers [OF rd, of h "base_url opts" "[]" "[]" "[]" r]
  obtain sent1 r1 where rl:
    "run_layers (registry_env fs h) (base_url opts) order [] [] [] r
       = ((map (file_digest fs h) order, [], sent1), r1)"
    "set (present r1) = set (present r) \<union> blob_url (base_url opts) ` file_digest fs h ` set order"
    "\<forall>d. layer_uploads (base_url opts) d sent1
               = (if d \<in> file_digest fs h ` set order
                     \<and> blob_url (base_url opts) d \<notin> set (present r)
                  then 1 else 0)"
    "\<forall>u. manifest_uploads u sent1 = 0"
    by auto
  from registry_generate obtain manifest where
    g: "generateContainerManifest (registry_env fs h) (map (file_digest fs h) order) opts
          = Inr manifest" by blast
  define req where "req = manifest_put_request (registry_env fs h) (manifest_url opts)
                 (concat (map layerDigest (Layers manifest)))"
  have nz: "\<not> concurrency m < 0" "concurrency m \<noteq> 0" using assms(2) by simp_all
  have cu: "ContainerUpload m (registry_env fs h) ctx sched opts r
              = ((Returns None, sent1 @ [req], [UpAttempt 0]),
                 r1\<lparr>present := manifest_url opts # present r1\<rparr>)"
    using assms(1) nz rl(1) g registry_manifest_retry [OF assms(3), of ctx fs h "manifest_url opts" manifest sent1 r1]
    by (simp add: ContainerUpload_def Let_def order_def layer_files_def
          base_url_def manifest_url_def req_def)
  have "set (present (r1\<lparr>present := manifest_url opts # present r1\<rparr>))
          = set (present r) \<union> blob_url (base_url opts) ` file_digest fs h ` set (layer_files opts)
           \<union> {manifest_url opts}"
    using rl(2) so by auto
  moreover have "\<forall>d. layer_uploads (base_url opts) d (sent1 @ [req])
               = (if d \<in> file_digest fs h ` set (layer_files opts)
                     \<and> blob_url (base_url opts) d \<notin> set (present r)
                  then 1 else 0)"
    using rl(3) so by (simp add: count_simps req_def)
  moreover have "manifest_uploads (manifest_url opts) (sent1 @ [req]) = 1"
    using rl(4) by (simp add: count_simps req_def)
  ultimately show ?thesis using cu by blast
qed

text \<open>
  Claim C9. First, for any file system and any remote side: when the existence probe of
  \<^verbatim>\<open>uploadContainerLayer\<close> answers 200 for the blob of the layer's digest, the function
  returns that digest and the probe is the only request it has sent: no upload session is
  opened and no byte of the layer is sent. Second, on a registry that keeps what it is
  given, with valid options, a semaphore of at least one slot, at least one attempt, and
  readable layer files with distinct digests: when the blobs of all layers of a version
  are already there, \<^verbatim>\<open>ContainerUpload\<close> uploads no layer at all and still uploads the
  manifest, once, and returns no error. Third, on such a registry, for two versions of
  one package uploaded one after the other that share a layer digest \<open>d\<close> whose blob was
  not there before: both calls return no error, the layer \<open>d\<close> is uploaded once by the first
  call and not at all by the second, and each call uploads its manifest once.
\<close>

theorem layer_dedup_by_digest:
  "(os_Stat a file = Inr sz \<and> os_Open a file = None \<and> hash_Copy a file = Inr content
      \<and> NewRequest a ''HEAD'' (blob_url baseURL (''sha256:'' @ sha256_hex a content)) = None
      \<and> Do a (head_request (blob_url baseURL (''sha256:'' @ sha256_hex a content))) w
           = (Inr resp, w')
      \<and> StatusCode resp = 200
    \<longrightarrow> uploadContainerLayer a baseURL file w
          = ((Inr (''sha256:'' @ sha256_hex a content),
              [head_request (blob_url baseURL (''sha256:'' @ sha256_hex a content))]), w'))
   \<and> (validateContainerUpload opts = None \<and> 1 \<le> concurrency m \<and> 1 \<le> maxRetries m
      \<and> list_all (\<lambda>f. fs f \<noteq> None) (layer_files opts)
      \<and> distinct (map (file_digest fs h) (layer_files opts))
      \<and> list_all (\<lambda>f. List.member (present r) (blob_url (base_url opts) (file_digest fs h f)))
           (layer_files opts)
    \<longrightarrow> (let run = ContainerUpload m (registry_env fs h) ctx sched opts r
         in fst (fst run) = Returns None
            \<and> (\<forall>d. layer_uploads (base_url opts) d (sent_of run) = 0)
            \<and> manifest_uploads (manifest_url opts) (sent_of run) = 1))
   \<and> (validateContainerUpload opts1 = None \<and> validateContainerUpload opts2 = None
      \<and> optOrganization opts2 = optOrganization opts1
      \<and> optPackageName opts2 = optPackageName opts1
      \<and> 1 \<le> concurrency m \<and> 1 \<le> maxRetries m
      \<and> list_all (\<lambda>f. fs f \<noteq> None) (layer_files opts1 @ layer_files opts2)
      \<and> distinct (map (file_digest fs h) (layer_files opts1))
      \<and> distinct (map (file_digest fs h) (layer_files opts2))
      \<and> List.member (map (file_digest fs h) (layer_files opts1)) d
      \<and> List.member (map (file_digest fs h) (layer_files opts2)) d
      \<and> \<not> List.member (present r0) (blob_url (base_url opts1) d)
    \<longrightarrow> (let run1 = ContainerUpload m (registry_env fs h) ctx1 sched1 opts1 r0;
             run2 = ContainerUpload m (registry_env fs h) ctx2 sched2 opts2 (snd run1)
         in fst (fst run1) = Returns None \<and> fst (fst run2) = Returns None
            \<and> layer_uploads (base_url opts1) d (sent_of run1) = 1
            \<and> layer_uploads (base_url opts1) d (sent_of run2) = 0
            \<and> manifest_uploads (manifest_url opts1) (sent_of run1) = 1
            \<and> manifest_uploads (manifest_url opts2) (sent_of run2) = 1))"
proof (intro conjI impI)
  assume "os_Stat a file = Inr sz \<and> os_Open a file = None \<and> hash_Copy a file = Inr content
      \<and> NewRequest a ''HEAD'' (blob_url baseURL (''sha256:'' @ sha256_hex a content)) = None
      \<and> Do a (head_request (blob_url baseURL (''sha256:'' @ sha256_hex a content))) w
           = (Inr resp, w')
      \<and> StatusCode resp = 200"
  then show "uploadContainerLayer a baseURL file w
          = ((Inr (''sha256:'' @ sha256_hex a content),
              [head_request (blob_url baseURL (''sha256:'' @ sha256_hex a content))]), w')"
    by (simp add: uploadContainerLayer_def checkExists_def Let_def blob_url_def)
next
  assume h: "validateContainerUpload opts = None \<and> 1 \<le> concurrency m \<and> 1 \<le> maxRetries m
      \<and> list_all (\<lambda>f. fs f \<noteq> None) (layer_files opts)
      \<and> distinct (map (file_digest fs h) (layer_files opts))
      \<and> list_all (\<lambda>f. List.member (present r) (blob_url (base_url opts) (file_digest fs h f)))
           (layer_files opts)"
  then have rd: "\<forall>f\<in>set (layer_files opts). fs f \<noteq> None" by (simp add: list_all_iff)
  from h have pr: "\<forall>f\<in>set (layer_files opts).
                     blob_url (base_url opts) (file_digest fs h f) \<in> set (present r)"
    by (simp add: list_all_iff)
  from h registry_ContainerUpload [OF _ _ _ rd, of m h ctx sched r]
  obtain sent r' where run:
    "ContainerUpload m (registry_env fs h) ctx sched opts r
       = ((Returns None, sent, [UpAttempt 0]), r')"
    "\<forall>d. layer_uploads (base_url opts) d sent
               = (if d \<in> file_digest fs h ` set (layer_files opts)
                     \<and> blob_url (base_url opts) d \<notin> set (present r)
                  then 1 else 0)"
    "manifest_uploads (manifest_url opts) sent = 1"
    by blast
  have "\<forall>d. layer_uploads (base_url opts) d sent = 0"
    using run(2) pr by auto
  then show "let run = ContainerUpload m (registry_env fs h) ctx sched opts r
         in fst (fst run) = Returns None
            \<and> (\<forall>d. layer_uploads (base_url opts) d (sent_of run) = 0)
            \<and> manifest_uploads (manifest_url opts) (sent_of run) = 1"
    using run(1,3) by (simp add: Let_def sent_of_def)
next
  assume h: "validateContainerUpload opts1 = None \<and> validateContainerUpload opts2 = None
      \<and> optOrganization opts2 = optOrganization opts1
      \<and> optPackageName opts2 = optPackageName opts1
      \<and> 1 \<le> concurrency m \<and> 1 \<le> maxRetries m
      \<and> list_all (\<lambda>f. fs f \<noteq> None) (layer_files opts1 @ layer_files opts2)
      \<and> distinct (map (file_digest fs h) (layer_files opts1))
      \<and> distinct (map (file_digest fs h) (layer_files opts2))
      \<and> List.member (map (file_digest fs h) (layer_files opts1)) d
      \<and> List.member (map (file_digest fs h) (layer_files opts2)) d
      \<and> \<not> List.member (present r0) (blob_url (base_url opts1) d)"
  then have rd1: "\<forall>f\<in>set (layer_files opts1). fs f \<noteq> None"
    and rd2: "\<forall>f\<in>set (layer_files opts2). fs f \<noteq> None"
    by (simp_all add: list_all_iff)
  from h have b: "base_url opts2 = base_url opts1" by (simp add: base_url_def)
  from h have d1: "d \<in> file_digest fs h ` set (layer_files opts1)"
    and d2: "d \<in> file_digest fs h ` set (layer_files opts2)"
    and fresh: "blob_url (base_url opts1) d \<notin> set (present r0)"
    by simp_all
  from h registry_ContainerUpload [OF _ _ _ rd1, of m h ctx1 sched1 r0]
  obtain sent1 r1 where run1:
    "ContainerUpload m (registry_env fs h) ctx1 sched1 opts1 r0
       = ((Returns None, sent1, [UpAttempt 0]), r1)"
    "set (present r1) = set (present r0)
           \<union> blob_url (base_url opts1) ` file_digest fs h ` set (layer_files opts1)
           \<union> {manifest_url opts1}"
    "\<forall>d. layer_uploads (base_url opts1) d sent1
               = (if d \<in> file_digest fs h ` set (layer_files opts1)
                     \<and> blob_url (base_url opts1) d \<notin> set (present r0)
                  then 1 else 0)"
    "manifest_uploads (manifest_url opts1) sent1 = 1"
    by blast
  from h registry_ContainerUpload [OF _ _ _ rd2, of m h ctx2 sched2 r1]
  obtain sent2 r2 where run2:
    "ContainerUpload m (registry_env fs h) ctx2 sched2 opts2 r1
       = ((Returns None, sent2, [UpAttempt 0]), r2)"
    "\<forall>d. layer_uploads (base_url opts2) d sent2
               = (if d \<in> file_digest fs h ` set (layer_files opts2)
                     \<and> blob_url (base_url opts2) d \<notin> set (present r1)
                  then 1 else 0)"
    "manifest_uploads (manifest_url opts2) sent2 = 1"
    by blast
  have in1: "blob_url (base_url opts1) d \<in> set (present r1)"
    using run1(2) d1 by auto
  have "layer_uploads (base_url opts1) d sent1 = 1" using run1(3) d1 fresh by simp
  moreover have "layer_uploads (base_url opts1) d sent2 = 0" using run2(2) in1 b by simp
  ultimately show "let run1 = ContainerUpload m (registry_env fs h) ctx1 sched1 opts1 r0;
             run2 = ContainerUpload m (registry_env fs h) ctx2 sched2 opts2 (snd run1)
         in fst (fst run1) = Returns None \<and> fst (fst run2) = Returns None
            \<and> layer_uploads (base_url opts1) d (sent_of run1) = 1
            \<and> layer_uploads (base_url opts1) d (sent_of run2) = 0
            \<and> manifest_uploads (manifest_url opts1) (sent_of run1) = 1
            \<and> manifest_uploads (manifest_url opts2) (sent_of run2) = 1"
    using run1(1,4) run2(1,3) by (simp add: Let_def sent_of_def)
qed

lemma web_layer_files:
  "layer_files web_v1 = [''layers/base.tar'', ''layers/app-1.tar'']"
  "layer_files web_v2 = [''layers/base.tar'', ''layers/app-2.tgz'']"
  by (simp_all add: layer_files_def isContainerLayer_def Ext_def web_v1_def web_v2_def)

lemma web_digests:
  "file_digest layer_store toy_hex ''layers/base.tar'' = ''sha256:base''"
  "file_digest layer_store toy_hex ''layers/app-1.tar'' = ''sha256:app1''"
  "file_digest layer_store toy_hex ''layers/app-2.tgz'' = ''sha256:app2''"
  by (simp_all add: file_digest_def layer_store_def toy_hex_def)

lemma web_urls:
  "base_url web_v1 = ''acme/web''" "base_url web_v2 = ''acme/web''"
  "manifest_url web_v1 = ''acme/web/manifests/1.0''"
  "manifest_url web_v2 = ''acme/web/manifests/2.0''"
  "validateContainerUpload web_v1 = None" "validateContainerUpload web_v2 = None"
  by (simp_all add: base_url_def manifest_url_def validateContainerUpload_def web_v1_def
        web_v2_def)

lemma registry_hex: "sha256_hex (registry_env fs h) = h"
  by (simp add: registry_env_def)

text \<open>
  Two versions of \<^verbatim>\<open>acme/web\<close> that share \<^verbatim>\<open>layers/base.tar\<close>, on an empty registry and on one
  that already has the blobs of the first version.
\<close>

theorem layer_dedup_by_digest_witness:
  "uploadContainerLayer (registry_env layer_store toy_hex) ''acme/web'' ''layers/base.tar''
       seeded_registry
     = ((Inr ''sha256:base'', [head_request ''acme/web/blobs/sha256:base'']), seeded_registry)
   \<and> (let run = ContainerUpload NewUploadManager (registry_env layer_store toy_hex)
                   (\<lambda>k. None) [] web_v1 seeded_registry
      in fst (fst run) = Returns None
         \<and> layer_uploads ''acme/web'' ''sha256:base'' (sent_of run) = 0
         \<and> layer_uploads ''acme/web'' ''sha256:app1'' (sent_of run) = 0
         \<and> manifest_uploads ''acme/web/manifests/1.0'' (sent_of run) = 1)
   \<and> (let run1 = ContainerUpload NewUploadManager (registry_env layer_store toy_hex)
                    (\<lambda>k. None) [] web_v1 empty_registry;
           run2 = ContainerUpload NewUploadManager (registry_env layer_store toy_hex)
                    (\<lambda>k. None) [0, 0, 2] web_v2 (snd run1)
       in fst (fst run1) = Returns None \<and> fst (fst run2) = Returns None
          \<and> layer_uploads ''acme/web'' ''sha256:base'' (sent_of run1) = 1
          \<and> layer_uploads ''acme/web'' ''sha256:base'' (sent_of run2) = 0
          \<and> manifest_uploads ''acme/web/manifests/1.0'' (sent_of run1) = 1
          \<and> manifest_uploads ''acme/web/manifests/2.0'' (sent_of run2) = 1)"
proof -
  have a: "os_Stat (registry_env layer_store toy_hex) ''layers/base.tar'' = Inr 4
      \<and> os_Open (registry_env layer_store toy_hex) ''layers/base.tar'' = None
      \<and> hash_Copy (registry_env layer_store toy_hex) ''layers/base.tar'' = Inr ''base''
      \<and> NewRequest (registry_env layer_store toy_hex) ''HEAD''
           (blob_url ''acme/web''
              (''sha256:'' @ sha256_hex (registry_env layer_store toy_hex) ''base'')) = None
      \<and> Do (registry_env layer_store toy_hex)
           (head_request (blob_url ''acme/web''
              (''sha256:'' @ sha256_hex (registry_env layer_store toy_hex) ''base'')))
           seeded_registry
           = (Inr (ok_response 200 ''200 OK''), seeded_registry)
      \<and> StatusCode (ok_response 200 ''200 OK'') = 200"
    by (simp add: registry_env_def layer_store_def toy_hex_def registry_Do_def blob_url_def
          head_request_def seeded_registry_def ok_response_def)
  have b: "validateContainerUpload web_v1 = None \<and> 1 \<le> concurrency NewUploadManager
      \<and> 1 \<le> maxRetries NewUploadManager
      \<and> list_all (\<lambda>f. layer_store f \<noteq> None) (layer_files web_v1)
      \<and> distinct (map (file_digest layer_store toy_hex) (layer_files web_v1))
      \<and> list_all (\<lambda>f. List.member (present seeded_registry)
                          (blob_url (base_url web_v1) (file_digest layer_store toy_hex f)))
           (layer_files web_v1)"
    by (simp add: web_layer_files web_digests web_urls NewUploadManager_def layer_store_def
          blob_url_def seeded_registry_def)
  have c: "validateContainerUpload web_v1 = None \<and> validateContainerUpload web_v2 = None
      \<and> optOrganization web_v2 = optOrganization web_v1
      \<and> optPackageName web_v2 = optPackageName web_v1
      \<and> 1 \<le> concurrency NewUploadManager \<and> 1 \<le> maxRetries NewUploadManager
      \<and> list_all (\<lambda>f. layer_store f \<noteq> None) (layer_files web_v1 @ layer_files web_v2)
      \<and> distinct (map (file_digest layer_store toy_hex) (layer_files web_v1))
      \<and> distinct (map (file_digest layer_store toy_hex) (layer_files web_v2))
      \<and> List.member (map (file_digest layer_store toy_hex) (layer_files web_v1)) ''sha256:base''
      \<and> List.member (map (file_digest layer_store toy_hex) (layer_files web_v2)) ''sha256:base''
      \<and> \<not> List.member (present empty_registry) (blob_url (base_url web_v1) ''sha256:base'')"
    by (simp add: web_layer_files web_digests web_urls NewUploadManager_def layer_store_def
          empty_registry_def)
       (simp add: web_v1_def web_v2_def)
  from layer_dedup_by_digest [of "registry_env layer_store toy_hex" "''layers/base.tar''" 4
         "''base''" "''acme/web''" seeded_registry "ok_response 200 ''200 OK''" seeded_registry
         web_v1 NewUploadManager layer_store toy_hex seeded_registry "\<lambda>k. None" "[]"
         web_v1 web_v2 "''sha256:base''" empty_registry "\<lambda>k. None" "[]" "\<lambda>k. None" "[0, 0, 2]"]
       a b c
  show ?thesis
    by (simp add: web_urls Let_def registry_hex toy_hex_def blob_url_def)
qed

end
